theory Spec2Isabelle
  imports Main "HOL-Library.Word"
begin

section \<open>The HTTP request listener of \<open>Server\<close>\<close>

text \<open>
  The listener installed by the constructor of \<open>Server\<close>: the method check, the rest
  of the \<open>try\<close> block, and the \<open>catch\<close> block that turns a thrown error into a status line and
  a body. What is written to the response is a list of effects, in order.
\<close>

definition HttpCode_Ok :: nat where "HttpCode_Ok = 200"
definition HttpCode_NotFound :: nat where "HttpCode_NotFound = 404"
definition HttpCode_BadRequest :: nat where "HttpCode_BadRequest = 400"

text \<open>The \<open>code\<close> property of a thrown value: a number, a string (Node's \<open>ENOENT\<close>), or none.\<close>

datatype error_code = NumCode nat | StrCode string | NoCode

record thrown =
  message :: string
  code :: error_code

definition HttpError :: "string \<Rightarrow> nat \<Rightarrow> thrown" where
  "HttpError m c = \<lparr>message = m, code = NumCode c\<rparr>"

record IncomingMessage =
  http_method :: "string option"
  url :: "string option"

record Response =
  content :: "string option"
  rcode :: "nat option"
  headers :: "(string \<times> string) list"

datatype http_effect =
    WriteHead nat "(string \<times> string) list"
  | End "string option"

text \<open>A template literal prints a missing method as \<open>undefined\<close>.\<close>

definition show_method :: "string option \<Rightarrow> string" where
  "show_method m = (case m of None \<Rightarrow> ''undefined'' | Some s \<Rightarrow> s)"

text \<open>\<open>code || HttpCode.Ok\<close>: a missing code and the code 0 both give 200.\<close>

definition status_of :: "nat option \<Rightarrow> nat" where
  "status_of c = (case c of None \<Rightarrow> HttpCode_Ok | Some n \<Rightarrow> if n = 0 then HttpCode_Ok else n)"

text \<open>The object spread \<open>{"Cache-Control": ..., ...headers}\<close>: a later key replaces an earlier one in place.\<close>

fun assign :: "(string \<times> string) list \<Rightarrow> string \<Rightarrow> string \<Rightarrow> (string \<times> string) list" where
  "assign [] k v = [(k, v)]"
| "assign ((k', v') # kvs) k v = (if k' = k then (k, v) # kvs else (k', v') # assign kvs k v)"

definition spread :: "(string \<times> string) list \<Rightarrow> (string \<times> string) list \<Rightarrow> (string \<times> string) list" where
  "spread base extra = foldl (\<lambda>acc kv. assign acc (fst kv) (snd kv)) base extra"

text \<open>The \<open>catch\<close> block.\<close>

definition on_error :: "thrown \<Rightarrow> http_effect list" where
  "on_error e =
     (let e' = (if code e = StrCode ''ENOENT'' \<or> code e = StrCode ''EISDIR''
                then HttpError ''Not found'' HttpCode_NotFound else e)
      in [WriteHead (case code e' of NumCode n \<Rightarrow> n | _ \<Rightarrow> 500) [], End (Some (message e'))])"

text \<open>
  The listener. Its first argument stands for the statements after the method check up to the
  end of \<open>handleRequest\<close> (the URL is parsed by Node's \<open>url\<close> module and the request is served
  by the abstract method \<open>handleRequest\<close> of a subclass): it reads the request and the server
  state \<open>'s\<close>, throws or answers, and returns the state it leaves.
\<close>

definition requestListener ::
  "(IncomingMessage \<Rightarrow> 's \<Rightarrow> (thrown + Response) \<times> 's) \<Rightarrow> IncomingMessage \<Rightarrow> 's \<Rightarrow> http_effect list \<times> 's" where
  "requestListener serve request s =
     (if http_method request \<noteq> Some ''GET''
      then (on_error (HttpError (''Unsupported method '' @ show_method (http_method request)) HttpCode_BadRequest), s)
      else (case serve request s of
              (Inl e, s') \<Rightarrow> (on_error e, s')
            | (Inr r, s') \<Rightarrow>
                ([WriteHead (status_of (rcode r)) (spread [(''Cache-Control'', ''max-age=86400'')] (headers r)),
                  End (content r)], s')))"

section \<open>Sockets, the protocol wrapper and the effects of a connection\<close>

type_synonym bytes = "8 word list"

record SocketOptions =
  reconnectionToken :: string
  reconnection :: bool
  skipWebSocketFrames :: bool

text \<open>
  What a protocol holds as its socket. \<open>NodeSocket n\<close> and \<open>WebSocketNodeSocket n\<close> wrap the
  raw \<open>net.Socket\<close> number \<open>n\<close>; \<open>ProtocolObject i\<close> is the protocol wrapper number \<open>i\<close>
  itself, handed over where a socket is expected.
\<close>

datatype ISocket = NodeSocket nat | WebSocketNodeSocket nat | ProtocolObject nat

text \<open>
  Modelled from the spec: the Protocol wrapper (\<open>vs/server/protocol\<close> is not among the
  sources). It wraps one socket (\<open>getSocket()\<close>), carries the options of the upgrade request,
  holds the bytes already received (\<open>readEntireBuffer()\<close>), and accepts a new socket
  (\<open>beginAcceptReconnection\<close>). Its other methods are recorded as effects.
\<close>

record Protocol =
  ident :: nat
  options :: SocketOptions
  socket :: ISocket
  buffered :: bytes

text \<open>The acknowledgement: \<open>{ type: "ok" }\<close>, or \<open>{}\<close> / \<open>{ debugPort }\<close> for an extension host.\<close>

datatype ack = OkMessage | DebugPortMessage "nat option"

text \<open>
  The value bound to a parameter declared as \<open>VSBuffer\<close> or \<open>ILogService\<close>. For the log service
  the option is what \<open>(x.buffer as Buffer).toString("base64")\<close> evaluates to on it (\<open>None\<close>: it
  throws); that depends on the log class, which is outside the repository.
\<close>

datatype js_value = VSBuffer bytes | LogService "string option" | Undefined

text \<open>
  The field \<open>initialDataChunk\<close>: the base64 text of a buffer (kept as the bytes it encodes),
  or the text that the expression gives on a value that is not a buffer.
\<close>

datatype data_chunk = Base64 bytes | ForeignText string

text \<open>The message of \<open>sendInitMessage\<close>; \<open>msg_type\<close> is its field \<open>type\<close>.\<close>

record IExtHostSocketMessage =
  msg_type :: string
  initialDataChunk :: data_chunk
  msg_skipWebSocketFrames :: bool

datatype ConnectionType = Management | ExtensionHost | Tunnel | OtherType nat

text \<open>
  The errors that \<open>connect\<close> throws. \<open>CallOnUndefined\<close> is the failure of a method call on
  \<open>undefined\<close>, where the table names an object that does not exist.
\<close>

datatype error =
    UnrecognizedReconnectionToken
  | DuplicateReconnectionToken
  | UnrecognizedConnectionType
  | CallOnUndefined

datatype effect =
    SendMessage nat ack
  | ReadEntireBuffer nat
  | ProtocolDispose nat
  | ProtocolDisposeWith nat error
  | ProtocolTunnel nat
  | BeginAcceptReconnection nat ISocket "bytes option"
  | EndAcceptReconnection nat
  | SendDisconnect nat
  | SocketEnd ISocket
  | SocketPause ISocket
  | SetTimeout nat nat
  | ClearTimeout "nat option"
  | Fork nat
  | ProcessKill nat
  | ProcessSend nat IExtHostSocketMessage ISocket
  | RemoveListener nat
  | LogCall
  | TypeError
  | OnCloseFire
  | OnDidClientConnectFire nat

text \<open>
  The first argument of an effect on a protocol, a timer or a process is its number.
  \<open>ProtocolDisposeWith\<close> is \<open>protocol.dispose(error)\<close>. \<open>SetTimeout\<close> carries the handle and
  the delay in milliseconds. \<open>TypeError\<close> is an exception thrown inside a listener.
  \<open>SocketEnd\<close>, \<open>SocketPause\<close> and the last argument of \<open>ProcessSend\<close> name the socket by what
  the protocol holds at that moment: \<open>getSocket().end()\<close> acts on it, \<open>getUnderlyingSocket()\<close>
  is the raw socket under it.
\<close>

section \<open>Timers\<close>

text \<open>
  \<open>setTimeout\<close> returns a fresh handle and leaves the timer pending with its delay;
  \<open>clearTimeout\<close> removes the timer of a handle, and does nothing on \<open>undefined\<close> or on a
  handle that is no longer pending.
\<close>

record timers =
  pending :: "(nat \<times> nat) list"
  fresh :: nat

definition setTimeout :: "nat \<Rightarrow> timers \<Rightarrow> nat \<times> timers" where
  "setTimeout delay w = (fresh w, \<lparr>pending = pending w @ [(fresh w, delay)], fresh = Suc (fresh w)\<rparr>)"

definition clearTimeout :: "nat option \<Rightarrow> timers \<Rightarrow> timers" where
  "clearTimeout h w =
     (case h of None \<Rightarrow> w | Some t \<Rightarrow> w\<lparr>pending := filter (\<lambda>p. fst p \<noteq> t) (pending w)\<rparr>)"

definition is_pending :: "nat \<Rightarrow> timers \<Rightarrow> bool" where
  "is_pending t w = (t \<in> fst ` set (pending w))"

section \<open>Connection and ManagementConnection\<close>

record Connection =
  protocol :: Protocol
  disposed :: bool

record ManagementConnection = Connection +
  timeout :: "nat option"

definition wait :: nat where
  "wait = 1000 * 60"

text \<open>
  The constructor registers two listeners on the protocol; they are the cases \<open>ProtocolClose\<close>
  and \<open>SocketClose\<close> of \<open>ManagementConnection_on\<close> below.
\<close>

definition ManagementConnection_new :: "Protocol \<Rightarrow> ManagementConnection" where
  "ManagementConnection_new p = \<lparr>protocol = p, disposed = False, timeout = None\<rparr>"

definition ManagementConnection_dispose ::
  "ManagementConnection \<Rightarrow> timers \<Rightarrow> effect list \<times> ManagementConnection \<times> timers" where
  "ManagementConnection_dispose c w =
     (if \<not> disposed c
      then ([ClearTimeout (timeout c),
             SendDisconnect (ident (protocol c)),
             ProtocolDispose (ident (protocol c)),
             SocketEnd (socket (protocol c)),
             OnCloseFire],
            c\<lparr>disposed := True\<rparr>, clearTimeout (timeout c) w)
      else ([], c, w))"

definition ManagementConnection_onSocketClose ::
  "ManagementConnection \<Rightarrow> timers \<Rightarrow> effect list \<times> ManagementConnection \<times> timers" where
  "ManagementConnection_onSocketClose c w =
     (case setTimeout wait w of (t, w') \<Rightarrow> ([SetTimeout t wait], c\<lparr>timeout := Some t\<rparr>, w'))"

definition ManagementConnection_reconnect ::
  "ISocket \<Rightarrow> bytes \<Rightarrow> ManagementConnection \<Rightarrow> timers \<Rightarrow> effect list \<times> ManagementConnection \<times> timers" where
  "ManagementConnection_reconnect sock buffer c w =
     ([ClearTimeout (timeout c),
       BeginAcceptReconnection (ident (protocol c)) sock (Some buffer),
       EndAcceptReconnection (ident (protocol c))],
      c\<lparr>protocol := (protocol c)\<lparr>socket := sock\<rparr>\<rparr>, clearTimeout (timeout c) w)"

text \<open>
  What the environment can deliver to a connection: the two events of its protocol, the expiry
  of a timer, and the events of its child process (a message is given by its \<open>type\<close>).
\<close>

datatype event =
    SocketClose
  | ProtocolClose
  | TimerFire nat
  | ProcessError
  | ProcessExit
  | ProcessMessage string

text \<open>A timer fires only while it is pending, and is no longer pending once it has fired.\<close>

fun ManagementConnection_on ::
  "event \<Rightarrow> ManagementConnection \<Rightarrow> timers \<Rightarrow> effect list \<times> ManagementConnection \<times> timers" where
  "ManagementConnection_on SocketClose c w = ManagementConnection_onSocketClose c w"
| "ManagementConnection_on ProtocolClose c w = ManagementConnection_dispose c w"
| "ManagementConnection_on (TimerFire t) c w =
     (if is_pending t w
      then ManagementConnection_dispose c (w\<lparr>pending := filter (\<lambda>p. fst p \<noteq> t) (pending w)\<rparr>)
      else ([], c, w))"
| "ManagementConnection_on ProcessError c w = ([], c, w)"
| "ManagementConnection_on ProcessExit c w = ([], c, w)"
| "ManagementConnection_on (ProcessMessage m) c w = ([], c, w)"

text \<open>What can happen to one connection: an event, or a call of one of its two methods.\<close>

datatype call = Event event | Reconnect ISocket bytes | Dispose

fun ManagementConnection_do ::
  "call \<Rightarrow> ManagementConnection \<Rightarrow> timers \<Rightarrow> effect list \<times> ManagementConnection \<times> timers" where
  "ManagementConnection_do (Event e) c w = ManagementConnection_on e c w"
| "ManagementConnection_do (Reconnect sock buffer) c w = ManagementConnection_reconnect sock buffer c w"
| "ManagementConnection_do Dispose c w = ManagementConnection_dispose c w"

fun ManagementConnection_run ::
  "call list \<Rightarrow> ManagementConnection \<Rightarrow> timers \<Rightarrow> effect list \<times> ManagementConnection \<times> timers" where
  "ManagementConnection_run [] c w = ([], c, w)"
| "ManagementConnection_run (x # xs) c w =
     (case ManagementConnection_do x c w of
        (es, c', w') \<Rightarrow>
          (case ManagementConnection_run xs c' w' of (es', c'', w'') \<Rightarrow> (es @ es', c'', w'')))"

section \<open>ExtensionHostConnection\<close>

text \<open>
  \<open>log_service\<close> is the field \<open>log\<close>. \<open>listen_buffer\<close> is the \<open>buffer\<close> that the listener
  \<open>listen\<close> of \<open>spawn\<close> has captured, and \<open>listening\<close> says whether that listener is still
  registered on the process.
\<close>

record ExtensionHostConnection = Connection +
  process :: nat
  log_service :: js_value
  listen_buffer :: js_value
  listening :: bool

text \<open>\<open>(buffer.buffer as Buffer).toString("base64")\<close>; \<open>None\<close> when the expression throws.\<close>

definition toString_base64 :: "js_value \<Rightarrow> data_chunk option" where
  "toString_base64 v =
     (case v of VSBuffer bs \<Rightarrow> Some (Base64 bs)
              | LogService t \<Rightarrow> map_option ForeignText t
              | Undefined \<Rightarrow> None)"

text \<open>\<open>x instanceof NodeSocket\<close>.\<close>

definition instanceof_NodeSocket :: "ISocket \<Rightarrow> bool" where
  "instanceof_NodeSocket x = (case x of NodeSocket n \<Rightarrow> True | _ \<Rightarrow> False)"

definition sendInitMessage :: "js_value \<Rightarrow> ExtensionHostConnection \<Rightarrow> effect list" where
  "sendInitMessage buffer c =
     SocketPause (socket (protocol c)) #
     (case toString_base64 buffer of
        None \<Rightarrow> [TypeError]
      | Some chunk \<Rightarrow>
          [ProcessSend (process c)
             \<lparr>msg_type = ''VSCODE_EXTHOST_IPC_SOCKET'',
              initialDataChunk = chunk,
              msg_skipWebSocketFrames = instanceof_NodeSocket (socket (protocol c))\<rparr>
             (socket (protocol c))])"

text \<open>
  The constructor: it disposes the protocol and spawns. \<open>proc\<close> is the handle that \<open>cp.fork\<close>
  returns. The listeners that \<open>spawn\<close> registers are the cases of \<open>ExtensionHostConnection_on\<close>.
\<close>

definition ExtensionHostConnection_new ::
  "Protocol \<Rightarrow> js_value \<Rightarrow> js_value \<Rightarrow> nat \<Rightarrow> effect list \<times> ExtensionHostConnection" where
  "ExtensionHostConnection_new p buffer lg proc =
     ([ProtocolDispose (ident p), Fork proc],
      \<lparr>protocol = p, disposed = False, process = proc, log_service = lg,
       listen_buffer = buffer, listening = True\<rparr>)"

definition ExtensionHostConnection_dispose ::
  "ExtensionHostConnection \<Rightarrow> effect list \<times> ExtensionHostConnection" where
  "ExtensionHostConnection_dispose c =
     (if \<not> disposed c
      then ([ProcessKill (process c), SocketEnd (socket (protocol c)), OnCloseFire],
            c\<lparr>disposed := True\<rparr>)
      else ([], c))"

definition ExtensionHostConnection_reconnect ::
  "ISocket \<Rightarrow> bytes \<Rightarrow> ExtensionHostConnection \<Rightarrow> effect list \<times> ExtensionHostConnection" where
  "ExtensionHostConnection_reconnect sock buffer c =
     (let c' = c\<lparr>protocol := (protocol c)\<lparr>socket := sock\<rparr>\<rparr>
      in ([BeginAcceptReconnection (ident (protocol c)) sock None,
           ProtocolDispose (ident (protocol c))] @ sendInitMessage (VSBuffer buffer) c', c'))"

text \<open>
  A message of the process goes to the console listener first (it logs a message of type
  \<open>__$console\<close> through the field \<open>log\<close>), then to \<open>listen\<close> while that is registered. The
  connection registers nothing on socket-closed and protocol-closed, and has no timer. The data
  events of the standard output and error of the process only write to the log and are left out.
\<close>

definition console_listener :: "string \<Rightarrow> ExtensionHostConnection \<Rightarrow> effect list" where
  "console_listener m c =
     (if m = ''__$console''
      then (case log_service c of LogService t \<Rightarrow> [LogCall] | _ \<Rightarrow> [TypeError])
      else [])"

definition listen :: "string \<Rightarrow> ExtensionHostConnection \<Rightarrow> effect list \<times> ExtensionHostConnection" where
  "listen m c =
     (if listening c \<and> m = ''VSCODE_EXTHOST_IPC_READY''
      then (RemoveListener (process c) # sendInitMessage (listen_buffer c) c, c\<lparr>listening := False\<rparr>)
      else ([], c))"

fun ExtensionHostConnection_on ::
  "event \<Rightarrow> ExtensionHostConnection \<Rightarrow> effect list \<times> ExtensionHostConnection" where
  "ExtensionHostConnection_on ProcessError c = ExtensionHostConnection_dispose c"
| "ExtensionHostConnection_on ProcessExit c = ExtensionHostConnection_dispose c"
| "ExtensionHostConnection_on (ProcessMessage m) c =
     (case listen m c of (es, c') \<Rightarrow> (console_listener m c @ es, c'))"
| "ExtensionHostConnection_on SocketClose c = ([], c)"
| "ExtensionHostConnection_on ProtocolClose c = ([], c)"
| "ExtensionHostConnection_on (TimerFire t) c = ([], c)"

fun ExtensionHostConnection_do ::
  "call \<Rightarrow> ExtensionHostConnection \<Rightarrow> effect list \<times> ExtensionHostConnection" where
  "ExtensionHostConnection_do (Event e) c = ExtensionHostConnection_on e c"
| "ExtensionHostConnection_do (Reconnect sock buffer) c = ExtensionHostConnection_reconnect sock buffer c"
| "ExtensionHostConnection_do Dispose c = ExtensionHostConnection_dispose c"

fun ExtensionHostConnection_run ::
  "call list \<Rightarrow> ExtensionHostConnection \<Rightarrow> effect list \<times> ExtensionHostConnection" where
  "ExtensionHostConnection_run [] c = ([], c)"
| "ExtensionHostConnection_run (x # xs) c =
     (case ExtensionHostConnection_do x c of
        (es, c') \<Rightarrow> (case ExtensionHostConnection_run xs c' of (es', c'') \<Rightarrow> (es @ es', c'')))"

section \<open>MainServer: the connection table and \<open>connect\<close>\<close>

text \<open>
  A connection object of either class; a management connection comes with the timers it has
  started.
\<close>

datatype connection = Mgmt ManagementConnection timers | ExtHost ExtensionHostConnection

fun connection_disposed :: "connection \<Rightarrow> bool" where
  "connection_disposed (Mgmt c w) = disposed c"
| "connection_disposed (ExtHost c) = disposed c"

fun connection_reconnect :: "ISocket \<Rightarrow> bytes \<Rightarrow> connection \<Rightarrow> effect list \<times> connection" where
  "connection_reconnect sock buffer (Mgmt c w) =
     (case ManagementConnection_reconnect sock buffer c w of (es, c', w') \<Rightarrow> (es, Mgmt c' w'))"
| "connection_reconnect sock buffer (ExtHost c) =
     (case ExtensionHostConnection_reconnect sock buffer c of (es, c') \<Rightarrow> (es, ExtHost c'))"

fun connection_on :: "event \<Rightarrow> connection \<Rightarrow> effect list \<times> connection" where
  "connection_on e (Mgmt c w) =
     (case ManagementConnection_on e c w of (es, c', w') \<Rightarrow> (es, Mgmt c' w'))"
| "connection_on e (ExtHost c) =
     (case ExtensionHostConnection_on e c of (es, c') \<Rightarrow> (es, ExtHost c'))"

text \<open>
  The server. \<open>connections\<close> is the field of that name, a map of maps whose values are
  references to connection objects. \<open>objects\<close> holds every connection object created so far,
  each with the closure of the close listener that \<open>connect\<close> registers on it: the inner map
  (given by its connection type) and the token it deletes. \<open>allocated\<close> and \<open>forked\<close> give
  the next object reference and the next process handle.
\<close>

record MainServer =
  connections :: "ConnectionType \<rightharpoonup> (string \<rightharpoonup> nat)"
  objects :: "nat \<rightharpoonup> connection \<times> ConnectionType \<times> string"
  allocated :: nat
  forked :: nat
  logService :: js_value

definition getDebugPort :: "nat option" where
  "getDebugPort = None"

text \<open>The constant \<open>ok\<close> of \<open>connect\<close>; \<open>debugPort ? ... : ...\<close> takes 0 as absent.\<close>

definition ok_message :: "ConnectionType \<Rightarrow> nat option \<Rightarrow> ack" where
  "ok_message ty debugPort =
     (if ty = ExtensionHost
      then (case debugPort of
              None \<Rightarrow> DebugPortMessage None
            | Some n \<Rightarrow> if n = 0 then DebugPortMessage None else DebugPortMessage (Some n))
      else OkMessage)"

text \<open>
  The body of the cases \<open>ExtensionHost\<close> and \<open>Management\<close>. It returns the error thrown, if
  any, the effects in order, and the server as it is left (also when it throws). The only
  \<open>await\<close> of \<open>connect\<close> (for the debug port) comes before the first read of the table, so
  from there on the body runs in one turn of the event loop, as one step. The constructor of
  \<open>ExtensionHostConnection\<close> is called as the source calls it, with the log service in the
  place of \<open>buffer\<close> and nothing in the place of \<open>log\<close>.
\<close>

definition admit :: "ConnectionType \<Rightarrow> Protocol \<Rightarrow> MainServer \<Rightarrow> error option \<times> effect list \<times> MainServer" where
  "admit ty p s =
     (let ok = ok_message ty getDebugPort;
          s1 = (if connections s ty = None
                then s\<lparr>connections := (connections s)(ty \<mapsto> Map.empty)\<rparr> else s);
          inner = (case connections s1 ty of Some m \<Rightarrow> m | None \<Rightarrow> Map.empty);
          token = reconnectionToken (options p)
      in if reconnection (options p) \<and> inner token \<noteq> None then
           (case inner token of
              None \<Rightarrow> (Some CallOnUndefined, [], s1)
            | Some r \<Rightarrow>
               (case objects s1 r of
                  None \<Rightarrow>
                    (Some CallOnUndefined,
                     [SendMessage (ident p) ok, ReadEntireBuffer (ident p), ProtocolDispose (ident p)], s1)
                | Some (c, l) \<Rightarrow>
                   (case connection_reconnect (ProtocolObject (ident p)) (buffered p) c of
                      (es, c') \<Rightarrow>
                        (None,
                         [SendMessage (ident p) ok, ReadEntireBuffer (ident p), ProtocolDispose (ident p)] @ es,
                         s1\<lparr>objects := (objects s1)(r \<mapsto> (c', l))\<rparr>))))
         else if reconnection (options p) \<or> inner token \<noteq> None then
           (Some (if reconnection (options p)
                  then UnrecognizedReconnectionToken else DuplicateReconnectionToken), [], s1)
         else
           (case (if ty = Management
                  then ([OnDidClientConnectFire (ident p)],
                        Mgmt (ManagementConnection_new p) \<lparr>pending = [], fresh = 0\<rparr>)
                  else (case ExtensionHostConnection_new p (logService s1) Undefined (forked s1) of
                          (es, c) \<Rightarrow> (es, ExtHost c))) of
              (es, connection) \<Rightarrow>
                (None, SendMessage (ident p) ok # es,
                 s1\<lparr>connections := (connections s1)(ty \<mapsto> inner(token \<mapsto> allocated s1)),
                    objects := (objects s1)(allocated s1 \<mapsto> (connection, ty, token)),
                    allocated := Suc (allocated s1),
                    forked := (if ty = Management then forked s1 else Suc (forked s1))\<rparr>)))"

definition connect :: "ConnectionType \<Rightarrow> Protocol \<Rightarrow> MainServer \<Rightarrow> error option \<times> effect list \<times> MainServer" where
  "connect ty p s =
     (case ty of
        ExtensionHost \<Rightarrow> admit ty p s
      | Management \<Rightarrow> admit ty p s
      | Tunnel \<Rightarrow> (None, [ProtocolTunnel (ident p)], s)
      | OtherType n \<Rightarrow> (Some UnrecognizedConnectionType, [], s))"

text \<open>The listener of the \<open>upgrade\<close> event, from the result of the handshake on.\<close>

definition upgrade :: "ConnectionType \<Rightarrow> Protocol \<Rightarrow> MainServer \<Rightarrow> effect list \<times> MainServer" where
  "upgrade ty p s =
     (case connect ty p s of
        (None, es, s') \<Rightarrow> (es, s')
      | (Some e, es, s') \<Rightarrow> (es @ [ProtocolDisposeWith (ident p) e], s'))"

text \<open>
  An event delivered to the connection object \<open>r\<close>. When the connection fires its close event,
  the listener registered by \<open>connect\<close> deletes its token from its inner map.
\<close>

definition table_delete ::
  "ConnectionType \<Rightarrow> string \<Rightarrow> (ConnectionType \<rightharpoonup> (string \<rightharpoonup> nat)) \<Rightarrow> (ConnectionType \<rightharpoonup> (string \<rightharpoonup> nat))" where
  "table_delete ty token t = (case t ty of None \<Rightarrow> t | Some m \<Rightarrow> t(ty \<mapsto> m(token := None)))"

definition deliver :: "nat \<Rightarrow> event \<Rightarrow> MainServer \<Rightarrow> effect list \<times> MainServer" where
  "deliver r e s =
     (case objects s r of
        None \<Rightarrow> ([], s)
      | Some (c, ty, token) \<Rightarrow>
         (case connection_on e c of
            (es, c') \<Rightarrow>
              (es, s\<lparr>connections := (if OnCloseFire \<in> set es
                                      then table_delete ty token (connections s) else connections s),
                      objects := (objects s)(r \<mapsto> (c', ty, token))\<rparr>)))"

datatype request = Upgrade ConnectionType Protocol | Deliver nat event

fun server_step :: "request \<Rightarrow> MainServer \<Rightarrow> effect list \<times> MainServer" where
  "server_step (Upgrade ty p) s = upgrade ty p s"
| "server_step (Deliver r e) s = deliver r e s"

fun server_run :: "request list \<Rightarrow> MainServer \<Rightarrow> MainServer" where
  "server_run [] s = s"
| "server_run (x # xs) s = server_run xs (snd (server_step x s))"

definition new_MainServer :: "js_value \<Rightarrow> MainServer" where
  "new_MainServer lg =
     \<lparr>connections = Map.empty, objects = Map.empty, allocated = 0, forked = 0, logService = lg\<rparr>"

text \<open>The entry of the table under a type and a token: \<open>connections.get(ty).get(token)\<close>.\<close>

definition lookup :: "MainServer \<Rightarrow> ConnectionType \<Rightarrow> string \<Rightarrow> nat option" where
  "lookup s ty token = (case connections s ty of None \<Rightarrow> None | Some m \<Rightarrow> m token)"

text \<open>
  The object \<open>r\<close> is a live connection of the session \<open>(ty, token)\<close>: it exists, it is not
  disposed, and the close listener registered on it deletes \<open>token\<close> from the inner map of \<open>ty\<close>.
\<close>

definition live :: "MainServer \<Rightarrow> nat \<Rightarrow> ConnectionType \<Rightarrow> string \<Rightarrow> bool" where
  "live s r ty token =
     (case objects s r of
        None \<Rightarrow> False
      | Some (c, ty', token') \<Rightarrow> \<not> connection_disposed c \<and> ty' = ty \<and> token' = token)"

text \<open>
  The invariant of the table: its entries are exactly the live connections, each under the
  session of its close listener; object references below \<open>allocated\<close> only.
\<close>

definition table_inv :: "MainServer \<Rightarrow> bool" where
  "table_inv s =
     ((\<forall>ty token r. (lookup s ty token = Some r) = live s r ty token)
      \<and> (\<forall>r. objects s r \<noteq> None \<longrightarrow> r < allocated s))"

text \<open>
  The connection object that \<open>admit\<close> constructs for a new session, with the effects of its
  construction.
\<close>

definition constructed :: "ConnectionType \<Rightarrow> Protocol \<Rightarrow> MainServer \<Rightarrow> effect list \<times> connection" where
  "constructed ty p s =
     (if ty = Management
      then ([OnDidClientConnectFire (ident p)],
            Mgmt (ManagementConnection_new p) \<lparr>pending = [], fresh = 0\<rparr>)
      else (case ExtensionHostConnection_new p (logService s) Undefined (forked s) of
              (es, c) \<Rightarrow> (es, ExtHost c)))"

text \<open>
  How a request can leave the server, seen through the table and the objects: as it was; with
  one existing connection reconnected; with one new entry for a new connection object.
\<close>

definition outcome_same :: "MainServer \<Rightarrow> MainServer \<Rightarrow> bool" where
  "outcome_same s s' = (lookup s' = lookup s \<and> objects s' = objects s \<and> allocated s' = allocated s)"

definition outcome_reconnect :: "ConnectionType \<Rightarrow> string \<Rightarrow> MainServer \<Rightarrow> MainServer \<Rightarrow> bool" where
  "outcome_reconnect ty token s s' =
     (lookup s' = lookup s \<and> allocated s' = allocated s
      \<and> (\<exists>r c c' l. lookup s ty token = Some r \<and> objects s r = Some (c, l)
            \<and> objects s' = (objects s)(r \<mapsto> (c', l))
            \<and> connection_disposed c' = connection_disposed c))"

definition outcome_insert :: "ConnectionType \<Rightarrow> string \<Rightarrow> MainServer \<Rightarrow> MainServer \<Rightarrow> bool" where
  "outcome_insert ty token s s' =
     (lookup s ty token = None \<and> allocated s' = Suc (allocated s)
      \<and> lookup s' = (\<lambda>ty' token'. if ty' = ty \<and> token' = token
                                    then Some (allocated s) else lookup s ty' token')
      \<and> (\<exists>c. \<not> connection_disposed c
            \<and> objects s' = (objects s)(allocated s \<mapsto> (c, ty, token))))"

section \<open>Counting effects in a trace\<close>

definition fires_close :: "effect \<Rightarrow> bool" where
  "fires_close e = (e = OnCloseFire)"

definition sends_disconnect :: "effect \<Rightarrow> bool" where
  "sends_disconnect e = (case e of SendDisconnect i \<Rightarrow> True | _ \<Rightarrow> False)"

definition releases_protocol :: "effect \<Rightarrow> bool" where
  "releases_protocol e = (case e of ProtocolDispose i \<Rightarrow> True | _ \<Rightarrow> False)"

definition ends_socket :: "effect \<Rightarrow> bool" where
  "ends_socket e = (case e of SocketEnd x \<Rightarrow> True | _ \<Rightarrow> False)"

definition kills_process :: "effect \<Rightarrow> bool" where
  "kills_process e = (case e of ProcessKill x \<Rightarrow> True | _ \<Rightarrow> False)"

definition forks_process :: "effect \<Rightarrow> bool" where
  "forks_process e = (case e of Fork x \<Rightarrow> True | _ \<Rightarrow> False)"

definition times :: "(effect \<Rightarrow> bool) \<Rightarrow> effect list \<Rightarrow> nat" where
  "times P es = length (filter P es)"

definition once_if :: "bool \<Rightarrow> nat" where
  "once_if b = (if b then 1 else 0)"

section \<open>Calls that run \<open>dispose\<close>\<close>

text \<open>
  For an extension host connection: a call of \<open>dispose\<close>, and the events \<open>error\<close> and
  \<open>exit\<close> of its process. For a management connection: a call of \<open>dispose\<close> and the close
  event of its protocol; the expiry of a timer runs \<open>dispose\<close> too, when the timer is pending.
\<close>

definition exthost_trigger :: "call \<Rightarrow> bool" where
  "exthost_trigger x = (x = Dispose \<or> x = Event ProcessError \<or> x = Event ProcessExit)"

definition management_trigger :: "call \<Rightarrow> bool" where
  "management_trigger x = (x = Dispose \<or> x = Event ProtocolClose)"

section \<open>One timer at a time\<close>

text \<open>
  \<open>timer_kept\<close>: no timer is pending, or one is and the connection holds its handle.
  \<open>spaced\<close>: along the calls, every socket-closed event arrives while no timer is pending.
\<close>

definition timer_kept :: "ManagementConnection \<Rightarrow> timers \<Rightarrow> bool" where
  "timer_kept c w =
     (case pending w of
        [] \<Rightarrow> True
      | [p] \<Rightarrow> timeout c = Some (fst p)
      | _ \<Rightarrow> False)"

fun spaced :: "call list \<Rightarrow> ManagementConnection \<Rightarrow> timers \<Rightarrow> bool" where
  "spaced [] c w = True"
| "spaced (x # xs) c w =
     ((if x = Event SocketClose then pending w = [] else True)
      \<and> (case ManagementConnection_do x c w of (es, c', w') \<Rightarrow> spaced xs c' w'))"

section \<open>Concrete inputs\<close>

text \<open>
  Two upgrade requests with the token \<open>t\<close>: \<open>first_protocol\<close> opens a session and has received
  the bytes 1, 2, 3; \<open>second_protocol\<close> asks to reconnect and has received 4, 5.
\<close>

definition first_protocol :: Protocol where
  "first_protocol =
     \<lparr>ident = 1,
      options = \<lparr>reconnectionToken = ''t'', reconnection = False, skipWebSocketFrames = False\<rparr>,
      socket = WebSocketNodeSocket 1, buffered = [1, 2, 3]\<rparr>"

definition second_protocol :: Protocol where
  "second_protocol =
     \<lparr>ident = 2,
      options = \<lparr>reconnectionToken = ''t'', reconnection = True, skipWebSocketFrames = False\<rparr>,
      socket = WebSocketNodeSocket 2, buffered = [4, 5]\<rparr>"

definition no_timers :: timers where
  "no_timers = \<lparr>pending = [], fresh = 0\<rparr>"

text \<open>
  A management connection and an extension host connection on \<open>first_protocol\<close>, as their
  constructors leave them (the process handle is 5), and the timers after one \<open>setTimeout\<close>.
\<close>

definition a_management :: ManagementConnection where
  "a_management = ManagementConnection_new first_protocol"

definition an_exthost :: ExtensionHostConnection where
  "an_exthost = snd (ExtensionHostConnection_new first_protocol (VSBuffer [1, 2, 3]) (LogService None) 5)"

definition one_timer :: timers where
  "one_timer = \<lparr>pending = [(0, 60000)], fresh = 1\<rparr>"

text \<open>A server that has admitted the management session of \<open>first_protocol\<close>.\<close>

definition a_server :: MainServer where
  "a_server = snd (snd (connect Management first_protocol (new_MainServer Undefined)))"

section \<open>Rejection of requests that are not GET\<close>

text \<open>
  C10. A plain HTTP request whose method is not GET is answered with status 400 and the
  message \<open>Unsupported method ...\<close>; the answer does not depend on the code that parses the URL
  and serves the resource (it is never run), and the server state is the one before the request.
\<close>

theorem non_get_rejected:
  "http_method request \<noteq> Some ''GET'' \<Longrightarrow>
   requestListener serve request s =
     ([WriteHead 400 [], End (Some (''Unsupported method '' @ show_method (http_method request)))], s)"
  by (simp add: requestListener_def on_error_def HttpError_def HttpCode_BadRequest_def Let_def)

theorem non_get_rejected_witness:
  "http_method \<lparr>http_method = Some ''POST'', url = Some ''/''\<rparr> \<noteq> Some ''GET'' \<and>
   requestListener (\<lambda>r s. (Inr \<lparr>content = Some ''page'', rcode = None, headers = []\<rparr>, Suc s))
       \<lparr>http_method = Some ''POST'', url = Some ''/''\<rparr> (0::nat) =
     ([WriteHead 400 [], End (Some ''Unsupported method POST'')], 0)"
  using non_get_rejected [of "\<lparr>http_method = Some ''POST'', url = Some ''/''\<rparr>"
      "\<lambda>r s. (Inr \<lparr>content = Some ''page'', rcode = None, headers = []\<rparr>, Suc s)" "0::nat"]
  by (simp add: show_method_def)

section \<open>Effects of the calls on an extension host connection\<close>

lemmas kinds = fires_close_def sends_disconnect_def releases_protocol_def ends_socket_def
  kills_process_def forks_process_def times_def once_if_def

lemma times_append: "times P (xs @ ys) = times P xs + times P ys"
  by (simp add: times_def)

lemma once_if_chain:
  "(a \<longrightarrow> b) \<Longrightarrow> (b \<longrightarrow> c) \<Longrightarrow>
   once_if (b \<and> \<not> a) + once_if (c \<and> \<not> b) = once_if (c \<and> \<not> a)"
  by (cases a; cases b; cases c; simp add: once_if_def)

lemma exthost_dispose_cases:
  "ExtensionHostConnection_dispose c = (es, c') \<Longrightarrow>
   (disposed c \<and> es = [] \<and> c' = c) \<or>
   (\<not> disposed c \<and> c' = c\<lparr>disposed := True\<rparr> \<and>
    es = [ProcessKill (process c), SocketEnd (socket (protocol c)), OnCloseFire])"
  by (auto simp: ExtensionHostConnection_dispose_def split: if_splits)

lemma sendInitMessage_quiet:
  "times fires_close (sendInitMessage b c) = 0 \<and> times kills_process (sendInitMessage b c) = 0
   \<and> times ends_socket (sendInitMessage b c) = 0 \<and> times forks_process (sendInitMessage b c) = 0"
  by (simp add: sendInitMessage_def kinds split: option.splits)

lemma console_listener_quiet:
  "times fires_close (console_listener m c) = 0 \<and> times kills_process (console_listener m c) = 0
   \<and> times ends_socket (console_listener m c) = 0 \<and> times forks_process (console_listener m c) = 0"
  by (simp add: console_listener_def kinds split: js_value.splits)

lemma exthost_reconnect_quiet:
  assumes "ExtensionHostConnection_reconnect sock buffer c = (es, c')"
  shows "disposed c' = disposed c \<and> process c' = process c
     \<and> times fires_close es = 0 \<and> times kills_process es = 0
     \<and> times ends_socket es = 0 \<and> times forks_process es = 0"
proof -
  let ?c = "c\<lparr>protocol := (protocol c)\<lparr>socket := sock\<rparr>\<rparr>"
  from assms have c': "c' = ?c"
    and es: "es = [BeginAcceptReconnection (ident (protocol c)) sock None,
                   ProtocolDispose (ident (protocol c))] @ sendInitMessage (VSBuffer buffer) ?c"
    by (auto simp: ExtensionHostConnection_reconnect_def Let_def)
  have "times fires_close [BeginAcceptReconnection (ident (protocol c)) sock None,
                   ProtocolDispose (ident (protocol c))] = 0"
       "times kills_process [BeginAcceptReconnection (ident (protocol c)) sock None,
                   ProtocolDispose (ident (protocol c))] = 0"
       "times ends_socket [BeginAcceptReconnection (ident (protocol c)) sock None,
                   ProtocolDispose (ident (protocol c))] = 0"
       "times forks_process [BeginAcceptReconnection (ident (protocol c)) sock None,
                   ProtocolDispose (ident (protocol c))] = 0"
    by (simp_all add: kinds)
  then show ?thesis
    unfolding es times_append using sendInitMessage_quiet [of "VSBuffer buffer" ?c] c' by simp
qed

lemma exthost_listen_quiet:
  assumes "listen m c = (es, c')"
  shows "disposed c' = disposed c \<and> process c' = process c
     \<and> times fires_close es = 0 \<and> times kills_process es = 0
     \<and> times ends_socket es = 0 \<and> times forks_process es = 0"
proof (cases "listening c \<and> m = ''VSCODE_EXTHOST_IPC_READY''")
  case True
  with assms have c': "c' = c\<lparr>listening := False\<rparr>"
    and es: "es = [RemoveListener (process c)] @ sendInitMessage (listen_buffer c) c"
    by (auto simp: listen_def)
  have "times fires_close [RemoveListener (process c)] = 0"
       "times kills_process [RemoveListener (process c)] = 0"
       "times ends_socket [RemoveListener (process c)] = 0"
       "times forks_process [RemoveListener (process c)] = 0"
    by (simp_all add: kinds)
  then show ?thesis
    unfolding es times_append using sendInitMessage_quiet [of "listen_buffer c" c] c' by simp
next
  case False
  with assms have "c' = c" "es = []" by (auto simp: listen_def)
  then show ?thesis by (simp add: kinds)
qed

lemma exthost_dispose_facts:
  assumes "ExtensionHostConnection_dispose c = (es, c')"
  shows "(disposed c \<longrightarrow> disposed c') \<and> process c' = process c
     \<and> times fires_close es = once_if (disposed c' \<and> \<not> disposed c)
     \<and> times kills_process es = once_if (disposed c' \<and> \<not> disposed c)
     \<and> times ends_socket es = once_if (disposed c' \<and> \<not> disposed c)
     \<and> times forks_process es = 0
     \<and> (\<forall>q. ProcessKill q \<in> set es \<longrightarrow> q = process c) \<and> disposed c'"
  using exthost_dispose_cases [OF assms]
proof (elim disjE conjE)
  assume "disposed c" "es = []" "c' = c"
  then show ?thesis by (simp add: kinds)
next
  assume "\<not> disposed c" "c' = c\<lparr>disposed := True\<rparr>"
    "es = [ProcessKill (process c), SocketEnd (socket (protocol c)), OnCloseFire]"
  then show ?thesis by (simp add: kinds)
qed

lemma exthost_quiet_facts:
  assumes q: "disposed c' = disposed c \<and> process c' = process c
     \<and> times fires_close es = 0 \<and> times kills_process es = 0
     \<and> times ends_socket es = 0 \<and> times forks_process es = 0"
    and nt: "\<not> exthost_trigger x"
  shows "(disposed c \<longrightarrow> disposed c') \<and> process c' = process c
     \<and> times fires_close es = once_if (disposed c' \<and> \<not> disposed c)
     \<and> times kills_process es = once_if (disposed c' \<and> \<not> disposed c)
     \<and> times ends_socket es = once_if (disposed c' \<and> \<not> disposed c)
     \<and> times forks_process es = 0
     \<and> (\<forall>q. ProcessKill q \<in> set es \<longrightarrow> q = process c \<and> exthost_trigger x)
     \<and> (exthost_trigger x \<longrightarrow> disposed c')"
proof -
  from q have "filter kills_process es = []" by (simp add: times_def)
  then have k: "\<forall>q. ProcessKill q \<notin> set es"
    by (auto simp: filter_empty_conv kills_process_def)
  from q have z: "once_if (disposed c' \<and> \<not> disposed c) = 0" by (simp add: once_if_def)
  from q k nt show ?thesis unfolding z by simp
qed

lemma exthost_do_facts:
  assumes "ExtensionHostConnection_do x c = (es, c')"
  shows "(disposed c \<longrightarrow> disposed c') \<and> process c' = process c
     \<and> times fires_close es = once_if (disposed c' \<and> \<not> disposed c)
     \<and> times kills_process es = once_if (disposed c' \<and> \<not> disposed c)
     \<and> times ends_socket es = once_if (disposed c' \<and> \<not> disposed c)
     \<and> times forks_process es = 0
     \<and> (\<forall>q. ProcessKill q \<in> set es \<longrightarrow> q = process c \<and> exthost_trigger x)
     \<and> (exthost_trigger x \<longrightarrow> disposed c')"
proof -
  have idle: "disposed c = disposed c \<and> process c = process c
     \<and> times fires_close [] = 0 \<and> times kills_process [] = 0
     \<and> times ends_socket [] = 0 \<and> times forks_process [] = 0"
    by (simp add: times_def)
  show ?thesis
  proof (cases x)
    case (Event e)
    show ?thesis
    proof (cases e)
      case ProcessError
      with Event assms have d: "ExtensionHostConnection_dispose c = (es, c')" by simp
      have t: "exthost_trigger x" using Event ProcessError by (simp add: exthost_trigger_def)
      from exthost_dispose_facts [OF d] t show ?thesis by blast
    next
      case ProcessExit
      with Event assms have d: "ExtensionHostConnection_dispose c = (es, c')" by simp
      have t: "exthost_trigger x" using Event ProcessExit by (simp add: exthost_trigger_def)
      from exthost_dispose_facts [OF d] t show ?thesis by blast
    next
      case (ProcessMessage m)
      obtain e1 c1 where l: "listen m c = (e1, c1)" by (cases "listen m c")
      with ProcessMessage Event assms have es: "es = console_listener m c @ e1" and c': "c' = c1"
        by auto
      have q: "disposed c' = disposed c \<and> process c' = process c
        \<and> times fires_close es = 0 \<and> times kills_process es = 0
        \<and> times ends_socket es = 0 \<and> times forks_process es = 0"
        unfolding es times_append c'
        using exthost_listen_quiet [OF l] console_listener_quiet [of m c] by simp
      have nt: "\<not> exthost_trigger x" using Event ProcessMessage by (simp add: exthost_trigger_def)
      from q nt show ?thesis by (rule exthost_quiet_facts)
    next
      case SocketClose
      with Event assms have e: "es = []" "c' = c" by auto
      have nt: "\<not> exthost_trigger x" using Event SocketClose by (simp add: exthost_trigger_def)
      show ?thesis unfolding e using exthost_quiet_facts [OF idle nt] .
    next
      case ProtocolClose
      with Event assms have e: "es = []" "c' = c" by auto
      have nt: "\<not> exthost_trigger x" using Event ProtocolClose by (simp add: exthost_trigger_def)
      show ?thesis unfolding e using exthost_quiet_facts [OF idle nt] .
    next
      case (TimerFire t)
      with Event assms have e: "es = []" "c' = c" by auto
      have nt: "\<not> exthost_trigger x" using Event TimerFire by (simp add: exthost_trigger_def)
      show ?thesis unfolding e using exthost_quiet_facts [OF idle nt] .
    qed
  next
    case (Reconnect sock buffer)
    with assms have r: "ExtensionHostConnection_reconnect sock buffer c = (es, c')" by simp
    have nt: "\<not> exthost_trigger x" using Reconnect by (simp add: exthost_trigger_def)
    from exthost_reconnect_quiet [OF r] nt show ?thesis by (rule exthost_quiet_facts)
  next
    case Dispose
    with assms have d: "ExtensionHostConnection_dispose c = (es, c')" by simp
    have t: "exthost_trigger x" using Dispose by (simp add: exthost_trigger_def)
    from exthost_dispose_facts [OF d] t show ?thesis by blast
  qed
qed

lemma exthost_run_facts:
  "ExtensionHostConnection_run xs c = (es, c') \<Longrightarrow>
   (disposed c \<longrightarrow> disposed c') \<and> process c' = process c
     \<and> times fires_close es = once_if (disposed c' \<and> \<not> disposed c)
     \<and> times kills_process es = once_if (disposed c' \<and> \<not> disposed c)
     \<and> times ends_socket es = once_if (disposed c' \<and> \<not> disposed c)
     \<and> times forks_process es = 0
     \<and> (\<forall>q. ProcessKill q \<in> set es \<longrightarrow> q = process c \<and> (\<exists>x \<in> set xs. exthost_trigger x))
     \<and> ((\<exists>x \<in> set xs. exthost_trigger x) \<longrightarrow> disposed c')"
proof (induction xs arbitrary: c es c')
  case Nil
  then show ?case by (simp add: kinds)
next
  case (Cons x xs)
  obtain e1 c1 where s1: "ExtensionHostConnection_do x c = (e1, c1)"
    by (cases "ExtensionHostConnection_do x c")
  obtain e2 c2 where s2: "ExtensionHostConnection_run xs c1 = (e2, c2)"
    by (cases "ExtensionHostConnection_run xs c1")
  from Cons.prems s1 s2 have eq: "es = e1 @ e2" "c' = c2" by simp_all
  note h1 = exthost_do_facts [OF s1]
  note h2 = Cons.IH [OF s2]
  from h1 h2 have mono: "disposed c \<longrightarrow> disposed c1" "disposed c1 \<longrightarrow> disposed c2" by simp_all
  note ch = once_if_chain [OF mono]
  have kill: "\<forall>q. ProcessKill q \<in> set (e1 @ e2) \<longrightarrow>
      q = process c \<and> (\<exists>y \<in> set (x # xs). exthost_trigger y)"
  proof (intro allI impI)
    fix q assume "ProcessKill q \<in> set (e1 @ e2)"
    then consider "ProcessKill q \<in> set e1" | "ProcessKill q \<in> set e2" by auto
    then show "q = process c \<and> (\<exists>y \<in> set (x # xs). exthost_trigger y)"
    proof cases
      case 1
      with h1 show ?thesis by simp
    next
      case 2
      with h2 have "q = process c1" "\<exists>y \<in> set xs. exthost_trigger y" by simp_all
      with h1 show ?thesis by simp
    qed
  qed
  have trig: "(\<exists>y \<in> set (x # xs). exthost_trigger y) \<longrightarrow> disposed c2"
  proof
    assume "\<exists>y \<in> set (x # xs). exthost_trigger y"
    then consider "exthost_trigger x" | "\<exists>y \<in> set xs. exthost_trigger y" by auto
    then show "disposed c2"
    proof cases
      case 1
      with h1 mono show ?thesis by simp
    next
      case 2
      with h2 show ?thesis by simp
    qed
  qed
  have p: "process c2 = process c" using h1 h2 by simp
  have f: "times forks_process e1 + times forks_process e2 = 0" using h1 h2 by simp
  have n1: "times fires_close e1 + times fires_close e2 = once_if (disposed c2 \<and> \<not> disposed c)"
    using h1 h2 ch by simp
  have n2: "times kills_process e1 + times kills_process e2 = once_if (disposed c2 \<and> \<not> disposed c)"
    using h1 h2 ch by simp
  have n3: "times ends_socket e1 + times ends_socket e2 = once_if (disposed c2 \<and> \<not> disposed c)"
    using h1 h2 ch by simp
  from mono p f n1 n2 n3 kill trig show ?case unfolding eq times_append by blast
qed

section \<open>Effects of the calls on a management connection\<close>

lemma mgmt_dispose_cases:
  "ManagementConnection_dispose c w = (es, c', w') \<Longrightarrow>
   (disposed c \<and> es = [] \<and> c' = c \<and> w' = w) \<or>
   (\<not> disposed c \<and> disposed c' \<and>
    es = [ClearTimeout (timeout c), SendDisconnect (ident (protocol c)),
          ProtocolDispose (ident (protocol c)), SocketEnd (socket (protocol c)), OnCloseFire])"
  by (auto simp: ManagementConnection_dispose_def split: if_splits)

lemma mgmt_dispose_counts:
  assumes "ManagementConnection_dispose c w = (es, c', w')"
  shows "(disposed c \<longrightarrow> disposed c')
     \<and> times fires_close es = once_if (disposed c' \<and> \<not> disposed c)
     \<and> times sends_disconnect es = once_if (disposed c' \<and> \<not> disposed c)
     \<and> times releases_protocol es = once_if (disposed c' \<and> \<not> disposed c)
     \<and> times ends_socket es = once_if (disposed c' \<and> \<not> disposed c)"
  using mgmt_dispose_cases [OF assms] by (auto simp: kinds)

lemma mgmt_do_counts:
  assumes "ManagementConnection_do x c w = (es, c', w')"
  shows "(disposed c \<longrightarrow> disposed c')
     \<and> times fires_close es = once_if (disposed c' \<and> \<not> disposed c)
     \<and> times sends_disconnect es = once_if (disposed c' \<and> \<not> disposed c)
     \<and> times releases_protocol es = once_if (disposed c' \<and> \<not> disposed c)
     \<and> times ends_socket es = once_if (disposed c' \<and> \<not> disposed c)"
proof (cases x)
  case (Event e)
  show ?thesis
  proof (cases e)
    case SocketClose
    with Event assms show ?thesis
      by (auto simp: ManagementConnection_onSocketClose_def setTimeout_def kinds)
  next
    case ProtocolClose
    with Event assms show ?thesis using mgmt_dispose_counts by simp
  next
    case (TimerFire t)
    show ?thesis
    proof (cases "is_pending t w")
      case True
      with TimerFire Event assms show ?thesis using mgmt_dispose_counts by simp
    next
      case False
      with TimerFire Event assms show ?thesis by (auto simp: kinds)
    qed
  qed (use Event assms in \<open>auto simp: kinds\<close>)
next
  case (Reconnect sock buffer)
  with assms show ?thesis
    by (auto simp: ManagementConnection_reconnect_def kinds)
next
  case Dispose
  with assms show ?thesis using mgmt_dispose_counts by simp
qed

lemma mgmt_run_counts:
  "ManagementConnection_run xs c w = (es, c', w') \<Longrightarrow>
   (disposed c \<longrightarrow> disposed c')
     \<and> times fires_close es = once_if (disposed c' \<and> \<not> disposed c)
     \<and> times sends_disconnect es = once_if (disposed c' \<and> \<not> disposed c)
     \<and> times releases_protocol es = once_if (disposed c' \<and> \<not> disposed c)
     \<and> times ends_socket es = once_if (disposed c' \<and> \<not> disposed c)"
proof (induction xs arbitrary: c w es c' w')
  case Nil
  then show ?case by (simp add: kinds)
next
  case (Cons x xs)
  obtain e1 c1 w1 where s1: "ManagementConnection_do x c w = (e1, c1, w1)"
    by (cases "ManagementConnection_do x c w")
  obtain e2 c2 w2 where s2: "ManagementConnection_run xs c1 w1 = (e2, c2, w2)"
    by (cases "ManagementConnection_run xs c1 w1")
  from Cons.prems s1 s2 have eq: "es = e1 @ e2" "c' = c2" "w' = w2" by simp_all
  note h1 = mgmt_do_counts [OF s1]
  note h2 = Cons.IH [OF s2]
  from h1 h2 have mono: "disposed c \<longrightarrow> disposed c1" "disposed c1 \<longrightarrow> disposed c2" by simp_all
  note ch = once_if_chain [OF mono]
  from h1 h2 ch show ?case unfolding eq times_append by simp
qed

section \<open>Disposal happens once\<close>

lemmas inputs = first_protocol_def second_protocol_def no_timers_def a_management_def
  an_exthost_def one_timer_def ManagementConnection_new_def ExtensionHostConnection_new_def

lemma once_if_le: "once_if b \<le> 1"
  by (simp add: once_if_def)

lemma mgmt_do_trigger:
  assumes "ManagementConnection_do x c w = (es, c', w')" and "management_trigger x"
  shows "disposed c'"
proof -
  from assms have "ManagementConnection_dispose c w = (es, c', w')"
    by (auto simp: management_trigger_def)
  from mgmt_dispose_cases [OF this] show ?thesis by auto
qed

lemma mgmt_timer_trigger:
  assumes "ManagementConnection_do (Event (TimerFire t)) c w = (es, c', w')" and "is_pending t w"
  shows "disposed c'"
proof -
  from assms have "ManagementConnection_dispose c
      (w\<lparr>pending := filter (\<lambda>p. fst p \<noteq> t) (pending w)\<rparr>) = (es, c', w')"
    by simp
  from mgmt_dispose_cases [OF this] show ?thesis by auto
qed

lemma mgmt_run_trigger:
  "ManagementConnection_run xs c w = (es, c', w') \<Longrightarrow>
   \<exists>x \<in> set xs. management_trigger x \<Longrightarrow> disposed c'"
proof (induction xs arbitrary: c w es c' w')
  case Nil
  then show ?case by simp
next
  case (Cons x xs)
  obtain e1 c1 w1 where s1: "ManagementConnection_do x c w = (e1, c1, w1)"
    by (cases "ManagementConnection_do x c w")
  obtain e2 c2 w2 where s2: "ManagementConnection_run xs c1 w1 = (e2, c2, w2)"
    by (cases "ManagementConnection_run xs c1 w1")
  from Cons.prems(1) s1 s2 have eq: "c' = c2" by simp
  from Cons.prems(2) consider "management_trigger x" | "\<exists>y \<in> set xs. management_trigger y"
    by auto
  then show ?case
  proof cases
    case 1
    from mgmt_do_trigger [OF s1 1] have "disposed c1" .
    with mgmt_run_counts [OF s2] show ?thesis unfolding eq by simp
  next
    case 2
    from Cons.IH [OF s2 2] show ?thesis unfolding eq .
  qed
qed

lemma mgmt_run_once:
  assumes "\<not> disposed c"
  shows "times fires_close (fst (ManagementConnection_run xs c w))
           = once_if (disposed (fst (snd (ManagementConnection_run xs c w))))
       \<and> times sends_disconnect (fst (ManagementConnection_run xs c w))
           = once_if (disposed (fst (snd (ManagementConnection_run xs c w))))
       \<and> times releases_protocol (fst (ManagementConnection_run xs c w))
           = once_if (disposed (fst (snd (ManagementConnection_run xs c w))))
       \<and> times ends_socket (fst (ManagementConnection_run xs c w))
           = once_if (disposed (fst (snd (ManagementConnection_run xs c w))))"
proof -
  obtain es c' w' where r: "ManagementConnection_run xs c w = (es, c', w')"
    by (cases "ManagementConnection_run xs c w")
  from mgmt_run_counts [OF r] assms show ?thesis unfolding r by simp
qed

lemma mgmt_run_trigger_once:
  assumes "\<not> disposed c" and "\<exists>x \<in> set xs. management_trigger x"
  shows "times fires_close (fst (ManagementConnection_run xs c w)) = 1"
proof -
  obtain es c' w' where r: "ManagementConnection_run xs c w = (es, c', w')"
    by (cases "ManagementConnection_run xs c w")
  from mgmt_run_trigger [OF r assms(2)] have "disposed c'" .
  with mgmt_run_counts [OF r] assms(1) show ?thesis unfolding r by (simp add: once_if_def)
qed

lemma mgmt_run_timer_once:
  assumes "\<not> disposed c" and "is_pending t w"
  shows "times fires_close (fst (ManagementConnection_run (Event (TimerFire t) # xs) c w)) = 1"
proof -
  let ?xs = "Event (TimerFire t) # xs"
  obtain e1 c1 w1 where s1: "ManagementConnection_do (Event (TimerFire t)) c w = (e1, c1, w1)"
    by (cases "ManagementConnection_do (Event (TimerFire t)) c w")
  obtain e2 c2 w2 where s2: "ManagementConnection_run xs c1 w1 = (e2, c2, w2)"
    by (cases "ManagementConnection_run xs c1 w1")
  have r: "ManagementConnection_run ?xs c w = (e1 @ e2, c2, w2)"
    using s1 s2 by simp
  from mgmt_timer_trigger [OF s1 assms(2)] have "disposed c1" .
  with mgmt_run_counts [OF s2] have "disposed c2" by simp
  with mgmt_run_counts [OF r] assms(1) show ?thesis unfolding r by (simp add: once_if_def)
qed

lemma exthost_run_once:
  assumes "\<not> disposed h"
  shows "times fires_close (fst (ExtensionHostConnection_run ys h))
           = once_if (disposed (snd (ExtensionHostConnection_run ys h)))
       \<and> times kills_process (fst (ExtensionHostConnection_run ys h))
           = once_if (disposed (snd (ExtensionHostConnection_run ys h)))
       \<and> times ends_socket (fst (ExtensionHostConnection_run ys h))
           = once_if (disposed (snd (ExtensionHostConnection_run ys h)))"
proof -
  obtain es h' where r: "ExtensionHostConnection_run ys h = (es, h')"
    by (cases "ExtensionHostConnection_run ys h")
  from exthost_run_facts [OF r] assms show ?thesis unfolding r by simp
qed

lemma exthost_run_trigger_once:
  assumes "\<not> disposed h" and "\<exists>y \<in> set ys. exthost_trigger y"
  shows "times fires_close (fst (ExtensionHostConnection_run ys h)) = 1"
proof -
  obtain es h' where r: "ExtensionHostConnection_run ys h = (es, h')"
    by (cases "ExtensionHostConnection_run ys h")
  from exthost_run_facts [OF r] assms(2) have "disposed h'" by blast
  with exthost_run_facts [OF r] assms(1) show ?thesis unfolding r by (simp add: once_if_def)
qed

text \<open>
  C6. \<open>dispose\<close> is idempotent for both classes. On a disposed connection it does nothing and
  changes nothing. From a connection that is not disposed, whatever the sequence of calls and
  events, the close event and each other side effect of disposal occur once if the connection
  ends disposed and not at all otherwise; and they occur exactly once as soon as the sequence
  holds one call that runs \<open>dispose\<close> (or starts with the expiry of a pending timer), however
  many more follow.
\<close>

theorem dispose_idempotent:
  "(disposed c \<longrightarrow> ManagementConnection_dispose c w = ([], c, w))
   \<and> (disposed h \<longrightarrow> ExtensionHostConnection_dispose h = ([], h))
   \<and> (\<not> disposed c \<longrightarrow>
        times fires_close (fst (ManagementConnection_run xs c w))
           = once_if (disposed (fst (snd (ManagementConnection_run xs c w))))
      \<and> times sends_disconnect (fst (ManagementConnection_run xs c w))
           = once_if (disposed (fst (snd (ManagementConnection_run xs c w))))
      \<and> times releases_protocol (fst (ManagementConnection_run xs c w))
           = once_if (disposed (fst (snd (ManagementConnection_run xs c w))))
      \<and> times ends_socket (fst (ManagementConnection_run xs c w))
           = once_if (disposed (fst (snd (ManagementConnection_run xs c w)))))
   \<and> (\<not> disposed c \<and> (\<exists>x \<in> set xs. management_trigger x) \<longrightarrow>
        times fires_close (fst (ManagementConnection_run xs c w)) = 1)
   \<and> (\<not> disposed c \<and> is_pending t w \<longrightarrow>
        times fires_close (fst (ManagementConnection_run (Event (TimerFire t) # xs) c w)) = 1)
   \<and> (\<not> disposed h \<longrightarrow>
        times fires_close (fst (ExtensionHostConnection_run ys h))
           = once_if (disposed (snd (ExtensionHostConnection_run ys h)))
      \<and> times kills_process (fst (ExtensionHostConnection_run ys h))
           = once_if (disposed (snd (ExtensionHostConnection_run ys h)))
      \<and> times ends_socket (fst (ExtensionHostConnection_run ys h))
           = once_if (disposed (snd (ExtensionHostConnection_run ys h))))
   \<and> (\<not> disposed h \<and> (\<exists>y \<in> set ys. exthost_trigger y) \<longrightarrow>
        times fires_close (fst (ExtensionHostConnection_run ys h)) = 1)"
proof (intro conjI impI)
  assume "disposed c"
  then show "ManagementConnection_dispose c w = ([], c, w)"
    by (simp add: ManagementConnection_dispose_def)
next
  assume "disposed h"
  then show "ExtensionHostConnection_dispose h = ([], h)"
    by (simp add: ExtensionHostConnection_dispose_def)
qed (use mgmt_run_once mgmt_run_trigger_once mgmt_run_timer_once exthost_run_once
      exthost_run_trigger_once in \<open>blast+\<close>)

theorem dispose_idempotent_witness:
  "disposed (a_management\<lparr>disposed := True\<rparr>)
   \<and> ManagementConnection_dispose (a_management\<lparr>disposed := True\<rparr>) one_timer
        = ([], a_management\<lparr>disposed := True\<rparr>, one_timer)
   \<and> disposed (an_exthost\<lparr>disposed := True\<rparr>)
   \<and> ExtensionHostConnection_dispose (an_exthost\<lparr>disposed := True\<rparr>)
        = ([], an_exthost\<lparr>disposed := True\<rparr>)
   \<and> \<not> disposed a_management
   \<and> (\<exists>x \<in> set [Event SocketClose, Event ProtocolClose, Dispose, Event (TimerFire 1)]. management_trigger x)
   \<and> times fires_close (fst (ManagementConnection_run
        [Event SocketClose, Event ProtocolClose, Dispose, Event (TimerFire 1)] a_management one_timer)) = 1
   \<and> is_pending 0 one_timer
   \<and> times fires_close (fst (ManagementConnection_run
        (Event (TimerFire 0) # [Event SocketClose, Event ProtocolClose, Dispose, Event (TimerFire 1)])
        a_management one_timer)) = 1
   \<and> \<not> disposed an_exthost
   \<and> (\<exists>y \<in> set [Event ProcessExit, Event ProcessError, Dispose]. exthost_trigger y)
   \<and> times fires_close (fst (ExtensionHostConnection_run
        [Event ProcessExit, Event ProcessError, Dispose] an_exthost)) = 1"
  using dispose_idempotent [of "a_management\<lparr>disposed := True\<rparr>" one_timer
      "an_exthost\<lparr>disposed := True\<rparr>" "[]" 0 "[]"]
    dispose_idempotent [of a_management one_timer an_exthost
      "[Event SocketClose, Event ProtocolClose, Dispose, Event (TimerFire 1)]" 0
      "[Event ProcessExit, Event ProcessError, Dispose]"]
  by (simp add: inputs is_pending_def management_trigger_def exthost_trigger_def)

section \<open>The process of an extension host connection\<close>

text \<open>
  C4. The process of an extension host connection is the one its constructor forked: after any
  sequence of calls and events the field \<open>process\<close> is unchanged and nothing is forked, so
  \<open>reconnect\<close> never spawns or restarts it. A kill in the trace is a kill of that process, and
  the sequence then holds a call of \<open>dispose\<close>, a process error or a process exit. A sequence
  without those three (socket-closed and protocol-closed events, reconnects, messages) kills
  nothing and leaves \<open>disposed\<close> as it was; socket-closed and protocol-closed do nothing at all.
\<close>

theorem exthost_process_lifetime:
  "process (snd (ExtensionHostConnection_run xs c)) = process c
   \<and> times forks_process (fst (ExtensionHostConnection_run xs c)) = 0
   \<and> (\<forall>q. ProcessKill q \<in> set (fst (ExtensionHostConnection_run xs c)) \<longrightarrow>
         q = process c \<and> (\<exists>x \<in> set xs. exthost_trigger x))
   \<and> ((\<forall>x \<in> set xs. \<not> exthost_trigger x) \<longrightarrow>
         times kills_process (fst (ExtensionHostConnection_run xs c)) = 0
       \<and> disposed (snd (ExtensionHostConnection_run xs c)) = disposed c)
   \<and> ExtensionHostConnection_do (Event SocketClose) c = ([], c)
   \<and> ExtensionHostConnection_do (Event ProtocolClose) c = ([], c)
   \<and> process (snd (ExtensionHostConnection_reconnect sock buffer c)) = process c
   \<and> ExtensionHostConnection_new p b lg n =
        ([ProtocolDispose (ident p), Fork n],
         \<lparr>protocol = p, disposed = False, process = n, log_service = lg,
          listen_buffer = b, listening = True\<rparr>)"
proof -
  obtain es c' where r: "ExtensionHostConnection_run xs c = (es, c')"
    by (cases "ExtensionHostConnection_run xs c")
  note f = exthost_run_facts [OF r]
  have quiet: "times kills_process es = 0 \<and> disposed c' = disposed c"
    if nt: "\<forall>x \<in> set xs. \<not> exthost_trigger x"
  proof -
    have k: "\<forall>q. ProcessKill q \<notin> set es" using f nt by blast
    have "filter kills_process es = []"
      unfolding filter_empty_conv
    proof
      fix e assume "e \<in> set es"
      with k show "\<not> kills_process e" by (cases e) (auto simp: kills_process_def)
    qed
    then have z: "times kills_process es = 0" by (simp add: times_def)
    with f have "once_if (disposed c' \<and> \<not> disposed c) = 0" by simp
    then have "\<not> (disposed c' \<and> \<not> disposed c)" by (simp add: once_if_def split: if_splits)
    with f z show ?thesis by blast
  qed
  obtain e1 c1 where rc: "ExtensionHostConnection_reconnect sock buffer c = (e1, c1)"
    by (cases "ExtensionHostConnection_reconnect sock buffer c")
  have p: "process (snd (ExtensionHostConnection_reconnect sock buffer c)) = process c"
    using exthost_reconnect_quiet [OF rc] unfolding rc by simp
  have n: "ExtensionHostConnection_new p b lg n =
        ([ProtocolDispose (ident p), Fork n],
         \<lparr>protocol = p, disposed = False, process = n, log_service = lg,
          listen_buffer = b, listening = True\<rparr>)"
    by (simp add: ExtensionHostConnection_new_def)
  have s: "ExtensionHostConnection_do (Event SocketClose) c = ([], c)"
      "ExtensionHostConnection_do (Event ProtocolClose) c = ([], c)"
    by simp_all
  have a: "process c' = process c" "times forks_process es = 0"
    "\<forall>q. ProcessKill q \<in> set es \<longrightarrow> q = process c \<and> (\<exists>x \<in> set xs. exthost_trigger x)"
    using f by blast+
  have b: "(\<forall>x \<in> set xs. \<not> exthost_trigger x) \<longrightarrow>
      times kills_process es = 0 \<and> disposed c' = disposed c"
    using quiet by blast
  show ?thesis unfolding r fst_conv snd_conv
    using a b p [unfolded rc snd_conv] n s unfolding rc snd_conv by blast
qed

theorem exthost_process_lifetime_witness:
  "ProcessKill 5 \<in> set (fst (ExtensionHostConnection_run
       [Reconnect (NodeSocket 7) [9], Event SocketClose, Reconnect (NodeSocket 8) [], Event ProcessExit]
       an_exthost))
   \<and> (\<exists>x \<in> set [Reconnect (NodeSocket 7) [9], Event SocketClose, Reconnect (NodeSocket 8) [],
          Event ProcessExit]. exthost_trigger x)
   \<and> process (snd (ExtensionHostConnection_run
       [Reconnect (NodeSocket 7) [9], Event SocketClose, Reconnect (NodeSocket 8) [], Event ProcessExit]
       an_exthost)) = 5
   \<and> \<not> exthost_trigger (Reconnect (NodeSocket 7) [9])
   \<and> \<not> exthost_trigger (Event SocketClose)
   \<and> \<not> exthost_trigger (Event ProtocolClose)
   \<and> \<not> exthost_trigger (Reconnect (NodeSocket 8) [])
   \<and> times kills_process (fst (ExtensionHostConnection_run
       [Reconnect (NodeSocket 7) [9], Event SocketClose, Event ProtocolClose, Reconnect (NodeSocket 8) []]
       an_exthost)) = 0
   \<and> \<not> disposed (snd (ExtensionHostConnection_run
       [Reconnect (NodeSocket 7) [9], Event SocketClose, Event ProtocolClose, Reconnect (NodeSocket 8) []]
       an_exthost))"
  using exthost_process_lifetime [of
      "[Reconnect (NodeSocket 7) [9], Event SocketClose, Reconnect (NodeSocket 8) [], Event ProcessExit]"
      an_exthost "NodeSocket 7" "[]" first_protocol Undefined Undefined 0]
    exthost_process_lifetime [of
      "[Reconnect (NodeSocket 7) [9], Event SocketClose, Event ProtocolClose, Reconnect (NodeSocket 8) []]"
      an_exthost "NodeSocket 7" "[]" first_protocol Undefined Undefined 0]
  by (simp add: inputs exthost_trigger_def ExtensionHostConnection_reconnect_def
      ExtensionHostConnection_dispose_def sendInitMessage_def toString_base64_def Let_def)

section \<open>The grace timer of a management connection\<close>

lemma clearTimeout_not_pending: "\<not> is_pending h (clearTimeout (Some h) w)"
  by (auto simp: is_pending_def clearTimeout_def)

lemma socket_close_then_expiry:
  assumes "\<not> disposed c"
  shows "fst (ManagementConnection_run [Event SocketClose, Event (TimerFire (fresh w))] c w) =
           [SetTimeout (fresh w) 60000, ClearTimeout (Some (fresh w)),
            SendDisconnect (ident (protocol c)), ProtocolDispose (ident (protocol c)),
            SocketEnd (socket (protocol c)), OnCloseFire]
       \<and> disposed (fst (snd (ManagementConnection_run [Event SocketClose, Event (TimerFire (fresh w))] c w)))"
  using assms
  by (simp add: ManagementConnection_onSocketClose_def setTimeout_def wait_def is_pending_def
      ManagementConnection_dispose_def)

lemma mgmt_run_cons:
  "ManagementConnection_do x c w = (es, c', w') \<Longrightarrow>
   ManagementConnection_run xs c' w' = (es', c'', w'') \<Longrightarrow>
   ManagementConnection_run (x # xs) c w = (es @ es', c'', w'')"
  by simp

lemma socket_close_then_reconnect:
  "fst (ManagementConnection_run
          [Event SocketClose, Reconnect sock buffer, Event (TimerFire (fresh w))] c w) =
     [SetTimeout (fresh w) 60000, ClearTimeout (Some (fresh w)),
      BeginAcceptReconnection (ident (protocol c)) sock (Some buffer),
      EndAcceptReconnection (ident (protocol c))]
   \<and> disposed (fst (snd (ManagementConnection_run
          [Event SocketClose, Reconnect sock buffer, Event (TimerFire (fresh w))] c w))) = disposed c
   \<and> socket (protocol (fst (snd (ManagementConnection_run
          [Event SocketClose, Reconnect sock buffer, Event (TimerFire (fresh w))] c w)))) = sock"
proof -
  let ?w1 = "\<lparr>pending = pending w @ [(fresh w, 60000)], fresh = Suc (fresh w)\<rparr>"
  let ?c1 = "c\<lparr>timeout := Some (fresh w)\<rparr>"
  let ?w2 = "clearTimeout (Some (fresh w)) ?w1"
  let ?c2 = "?c1\<lparr>protocol := (protocol c)\<lparr>socket := sock\<rparr>\<rparr>"
  have 1: "ManagementConnection_do (Event SocketClose) c w = ([SetTimeout (fresh w) 60000], ?c1, ?w1)"
    by (simp add: ManagementConnection_onSocketClose_def setTimeout_def wait_def)
  have 2: "ManagementConnection_do (Reconnect sock buffer) ?c1 ?w1 =
      ([ClearTimeout (Some (fresh w)), BeginAcceptReconnection (ident (protocol c)) sock (Some buffer),
        EndAcceptReconnection (ident (protocol c))], ?c2, ?w2)"
    by (simp add: ManagementConnection_reconnect_def)
  have "\<not> is_pending (fresh w) ?w2" by (rule clearTimeout_not_pending)
  then have 3: "ManagementConnection_do (Event (TimerFire (fresh w))) ?c2 ?w2 = ([], ?c2, ?w2)"
    by simp
  have "ManagementConnection_run
          [Event SocketClose, Reconnect sock buffer, Event (TimerFire (fresh w))] c w =
        ([SetTimeout (fresh w) 60000, ClearTimeout (Some (fresh w)),
          BeginAcceptReconnection (ident (protocol c)) sock (Some buffer),
          EndAcceptReconnection (ident (protocol c))], ?c2, ?w2)"
    using mgmt_run_cons [OF 1 mgmt_run_cons [OF 2 mgmt_run_cons [OF 3 ManagementConnection_run.simps(1)]]]
    by simp
  then show ?thesis by simp
qed

text \<open>
  C5. The state machine of a management connection. A socket-closed event starts a timer of
  60000 ms and keeps its handle. The expiry of a pending timer on a connection that is not
  disposed sends the disconnect notice, disposes the protocol, ends the socket and fires the
  close event. \<open>reconnect\<close> clears the timer whose handle is kept and resumes the protocol on the
  new socket with the buffer. A protocol-closed event disposes at once, whatever the timers.
  Two runs follow: socket-closed then expiry disposes; socket-closed, reconnect, then the expiry
  of the cleared timer does not.
\<close>

theorem management_state_machine:
  "ManagementConnection_on SocketClose c w =
     ([SetTimeout (fresh w) 60000], c\<lparr>timeout := Some (fresh w)\<rparr>,
      \<lparr>pending = pending w @ [(fresh w, 60000)], fresh = Suc (fresh w)\<rparr>)
   \<and> (\<not> disposed c \<and> is_pending t w \<longrightarrow>
        (\<exists>w'. ManagementConnection_on (TimerFire t) c w =
           ([ClearTimeout (timeout c), SendDisconnect (ident (protocol c)),
             ProtocolDispose (ident (protocol c)), SocketEnd (socket (protocol c)), OnCloseFire],
            c\<lparr>disposed := True\<rparr>, w') \<and> \<not> is_pending t w'))
   \<and> ManagementConnection_do (Reconnect sock buffer) c w =
        ([ClearTimeout (timeout c), BeginAcceptReconnection (ident (protocol c)) sock (Some buffer),
          EndAcceptReconnection (ident (protocol c))],
         c\<lparr>protocol := (protocol c)\<lparr>socket := sock\<rparr>\<rparr>, clearTimeout (timeout c) w)
   \<and> (timeout c = Some h \<longrightarrow> \<not> is_pending h (clearTimeout (timeout c) w))
   \<and> (\<not> disposed c \<longrightarrow>
        ManagementConnection_on ProtocolClose c w =
          ([ClearTimeout (timeout c), SendDisconnect (ident (protocol c)),
            ProtocolDispose (ident (protocol c)), SocketEnd (socket (protocol c)), OnCloseFire],
           c\<lparr>disposed := True\<rparr>, clearTimeout (timeout c) w))
   \<and> (\<not> disposed c \<longrightarrow>
        fst (ManagementConnection_run [Event SocketClose, Event (TimerFire (fresh w))] c w) =
           [SetTimeout (fresh w) 60000, ClearTimeout (Some (fresh w)),
            SendDisconnect (ident (protocol c)), ProtocolDispose (ident (protocol c)),
            SocketEnd (socket (protocol c)), OnCloseFire]
      \<and> disposed (fst (snd (ManagementConnection_run
            [Event SocketClose, Event (TimerFire (fresh w))] c w))))
   \<and> fst (ManagementConnection_run
          [Event SocketClose, Reconnect sock buffer, Event (TimerFire (fresh w))] c w) =
        [SetTimeout (fresh w) 60000, ClearTimeout (Some (fresh w)),
         BeginAcceptReconnection (ident (protocol c)) sock (Some buffer),
         EndAcceptReconnection (ident (protocol c))]
   \<and> disposed (fst (snd (ManagementConnection_run
          [Event SocketClose, Reconnect sock buffer, Event (TimerFire (fresh w))] c w))) = disposed c"
proof -
  have 1: "ManagementConnection_on SocketClose c w =
     ([SetTimeout (fresh w) 60000], c\<lparr>timeout := Some (fresh w)\<rparr>,
      \<lparr>pending = pending w @ [(fresh w, 60000)], fresh = Suc (fresh w)\<rparr>)"
    by (simp add: ManagementConnection_onSocketClose_def setTimeout_def wait_def)
  have 2: "\<exists>w'. ManagementConnection_on (TimerFire t) c w =
           ([ClearTimeout (timeout c), SendDisconnect (ident (protocol c)),
             ProtocolDispose (ident (protocol c)), SocketEnd (socket (protocol c)), OnCloseFire],
            c\<lparr>disposed := True\<rparr>, w') \<and> \<not> is_pending t w'"
    if a: "\<not> disposed c \<and> is_pending t w"
  proof -
    let ?w = "w\<lparr>pending := filter (\<lambda>p. fst p \<noteq> t) (pending w)\<rparr>"
    have "\<not> is_pending t (clearTimeout (timeout c) ?w)"
      by (cases "timeout c") (auto simp: is_pending_def clearTimeout_def)
    with a show ?thesis by (simp add: ManagementConnection_dispose_def)
  qed
  have 3: "ManagementConnection_do (Reconnect sock buffer) c w =
        ([ClearTimeout (timeout c), BeginAcceptReconnection (ident (protocol c)) sock (Some buffer),
          EndAcceptReconnection (ident (protocol c))],
         c\<lparr>protocol := (protocol c)\<lparr>socket := sock\<rparr>\<rparr>, clearTimeout (timeout c) w)"
    by (simp add: ManagementConnection_reconnect_def)
  have 4: "\<not> is_pending h (clearTimeout (timeout c) w)" if "timeout c = Some h"
    using that by (simp add: clearTimeout_not_pending)
  have 5: "ManagementConnection_on ProtocolClose c w =
          ([ClearTimeout (timeout c), SendDisconnect (ident (protocol c)),
            ProtocolDispose (ident (protocol c)), SocketEnd (socket (protocol c)), OnCloseFire],
           c\<lparr>disposed := True\<rparr>, clearTimeout (timeout c) w)" if "\<not> disposed c"
    using that by (simp add: ManagementConnection_dispose_def)
  from 1 2 3 4 5 socket_close_then_expiry [of c w] socket_close_then_reconnect [of sock buffer w c]
  show ?thesis by blast
qed

theorem management_state_machine_witness:
  "\<not> disposed (a_management\<lparr>timeout := Some 0\<rparr>) \<and> is_pending 0 one_timer
   \<and> timeout (a_management\<lparr>timeout := Some 0\<rparr>) = Some 0
   \<and> fst (ManagementConnection_on (TimerFire 0) (a_management\<lparr>timeout := Some 0\<rparr>) one_timer) =
        [ClearTimeout (Some 0), SendDisconnect 1, ProtocolDispose 1,
         SocketEnd (WebSocketNodeSocket 1), OnCloseFire]
   \<and> ManagementConnection_on ProtocolClose (a_management\<lparr>timeout := Some 0\<rparr>) one_timer =
        ([ClearTimeout (Some 0), SendDisconnect 1, ProtocolDispose 1,
          SocketEnd (WebSocketNodeSocket 1), OnCloseFire],
         a_management\<lparr>timeout := Some 0, disposed := True\<rparr>, \<lparr>pending = [], fresh = 1\<rparr>)
   \<and> \<not> is_pending 0 (snd (snd (ManagementConnection_do (Reconnect (NodeSocket 7) [9])
         (a_management\<lparr>timeout := Some 0\<rparr>) one_timer)))
   \<and> disposed (fst (snd (ManagementConnection_run [Event SocketClose, Event (TimerFire 1)]
         (a_management\<lparr>timeout := Some 0\<rparr>) one_timer)))"
  using management_state_machine [of "a_management\<lparr>timeout := Some 0\<rparr>" one_timer 0
      "NodeSocket 7" "[9]" 0]
  by (auto simp: inputs is_pending_def clearTimeout_def)

text \<open>
  C7. The claim fails on the code. The listener of socket-closed stores the new handle over the
  old one without clearing it: after two socket-closed events two timers are pending, a
  reconnect then clears only the second, and the first expires and disposes the connection that
  has just reconnected.
\<close>

theorem second_socket_close_leaves_first_timer:
  "snd (snd (ManagementConnection_run [Event SocketClose, Event SocketClose] a_management no_timers))
     = \<lparr>pending = [(0, 60000), (1, 60000)], fresh = 2\<rparr>
   \<and> snd (snd (ManagementConnection_run
        [Event SocketClose, Event SocketClose, Reconnect (NodeSocket 7) [9]] a_management no_timers))
     = \<lparr>pending = [(0, 60000)], fresh = 2\<rparr>
   \<and> fst (ManagementConnection_run
        [Event SocketClose, Event SocketClose, Reconnect (NodeSocket 7) [9], Event (TimerFire 0)]
        a_management no_timers)
     = [SetTimeout 0 60000, SetTimeout 1 60000,
        ClearTimeout (Some 1), BeginAcceptReconnection 1 (NodeSocket 7) (Some [9]),
        EndAcceptReconnection 1,
        ClearTimeout (Some 1), SendDisconnect 1, ProtocolDispose 1, SocketEnd (NodeSocket 7),
        OnCloseFire]"
  by (simp add: inputs ManagementConnection_onSocketClose_def setTimeout_def wait_def
      ManagementConnection_reconnect_def clearTimeout_def is_pending_def
      ManagementConnection_dispose_def del: set_filter)

text \<open>
  What does hold: as long as no socket-closed event arrives while a timer is pending, at most
  one timer is pending after any sequence of calls and events.
\<close>

lemma timer_kept_cases:
  "timer_kept c w \<longleftrightarrow> pending w = [] \<or> (\<exists>t d. pending w = [(t, d)] \<and> timeout c = Some t)"
  by (auto simp: timer_kept_def split: list.splits)

lemma timer_kept_do:
  assumes k: "timer_kept c w"
    and sp: "x = Event SocketClose \<Longrightarrow> pending w = []"
    and d: "ManagementConnection_do x c w = (es, c', w')"
  shows "timer_kept c' w'"
proof -
  have clear: "pending (clearTimeout (timeout c) w) = []"
    using k unfolding timer_kept_cases by (auto simp: clearTimeout_def split: option.splits)
  have disp: "timer_kept c1 w1"
    if "ManagementConnection_dispose c w0 = (es, c1, w1)" and "timer_kept c w0" for w0 c1 w1
  proof (cases "disposed c")
    case True
    with that show ?thesis by (simp add: ManagementConnection_dispose_def)
  next
    case False
    with that(1) have e: "c1 = c\<lparr>disposed := True\<rparr>" "w1 = clearTimeout (timeout c) w0"
      by (auto simp: ManagementConnection_dispose_def)
    from that(2) have "pending (clearTimeout (timeout c) w0) = []"
      unfolding timer_kept_cases by (auto simp: clearTimeout_def split: option.splits)
    then show ?thesis unfolding e by (simp add: timer_kept_def)
  qed
  show ?thesis
  proof (cases x)
    case (Event e)
    show ?thesis
    proof (cases e)
      case SocketClose
      with Event sp have "pending w = []" by simp
      with SocketClose Event d show ?thesis
        by (auto simp: ManagementConnection_onSocketClose_def setTimeout_def timer_kept_def)
    next
      case ProtocolClose
      with Event d have "ManagementConnection_dispose c w = (es, c', w')" by simp
      from disp [OF this k] show ?thesis .
    next
      case (TimerFire t)
      show ?thesis
      proof (cases "is_pending t w")
        case False
        with TimerFire Event d k show ?thesis by auto
      next
        case True
        let ?w = "w\<lparr>pending := filter (\<lambda>p. fst p \<noteq> t) (pending w)\<rparr>"
        from True TimerFire Event d have dd: "ManagementConnection_dispose c ?w = (es, c', w')"
          by simp
        from k consider "pending w = []" | t0 d0 where "pending w = [(t0, d0)]" "timeout c = Some t0"
          unfolding timer_kept_cases by blast
        then have "timer_kept c ?w"
        proof cases
          case 1
          then show ?thesis by (simp add: timer_kept_def)
        next
          case 2
          then show ?thesis by (cases "t0 = t") (simp_all add: timer_kept_def)
        qed
        from disp [OF dd this] show ?thesis .
      qed
    qed (use Event d k in auto)
  next
    case (Reconnect sock buffer)
    with d have "w' = clearTimeout (timeout c) w" by (auto simp: ManagementConnection_reconnect_def)
    with clear show ?thesis by (simp add: timer_kept_def)
  next
    case Dispose
    with d have "ManagementConnection_dispose c w = (es, c', w')" by simp
    from disp [OF this k] show ?thesis .
  qed
qed

lemma single_timer_when_spaced:
  "timer_kept c w \<Longrightarrow> spaced xs c w \<Longrightarrow>
   length (pending (snd (snd (ManagementConnection_run xs c w)))) \<le> 1"
proof (induction xs arbitrary: c w)
  case Nil
  then show ?case unfolding timer_kept_cases by auto
next
  case (Cons x xs)
  obtain es c1 w1 where d: "ManagementConnection_do x c w = (es, c1, w1)"
    by (cases "ManagementConnection_do x c w")
  obtain es2 c2 w2 where r: "ManagementConnection_run xs c1 w1 = (es2, c2, w2)"
    by (cases "ManagementConnection_run xs c1 w1")
  from Cons.prems(2) d have sp: "x = Event SocketClose \<Longrightarrow> pending w = []"
    and rest: "spaced xs c1 w1"
    by (auto split: if_splits)
  from timer_kept_do [OF Cons.prems(1) sp d] have "timer_kept c1 w1" by simp
  from Cons.IH [OF this rest] show ?case using d r by simp
qed

section \<open>Rejected admissions\<close>

lemma lookup_ensure:
  "lookup (s\<lparr>connections := (connections s)(ty \<mapsto> Map.empty)\<rparr>) ty' token =
     (if ty' = ty then None else lookup s ty' token)"
  by (simp add: lookup_def)

lemma admit_unrecognized:
  assumes "reconnection (options p)" and "lookup s ty (reconnectionToken (options p)) = None"
  shows "admit ty p s =
     (Some UnrecognizedReconnectionToken, [],
      s\<lparr>connections := (if connections s ty = None
                          then (connections s)(ty \<mapsto> Map.empty) else connections s)\<rparr>)"
proof (cases "connections s ty")
  case None
  with assms show ?thesis by (simp add: admit_def Let_def)
next
  case (Some m)
  with assms have "m (reconnectionToken (options p)) = None" by (simp add: lookup_def)
  with assms Some show ?thesis by (simp add: admit_def Let_def)
qed

lemma admit_duplicate:
  assumes "\<not> reconnection (options p)" and "lookup s ty (reconnectionToken (options p)) = Some r"
  shows "admit ty p s = (Some DuplicateReconnectionToken, [], s)"
proof -
  from assms obtain m where m: "connections s ty = Some m" "m (reconnectionToken (options p)) = Some r"
    by (auto simp: lookup_def split: option.splits)
  with assms show ?thesis by (simp add: admit_def Let_def)
qed

lemma connect_admit:
  "ty = Management \<or> ty = ExtensionHost \<Longrightarrow> connect ty p s = admit ty p s"
  by (auto simp: connect_def)

lemma lookup_lazy:
  "lookup (s\<lparr>connections := (if connections s ty = None
        then (connections s)(ty \<mapsto> Map.empty) else connections s)\<rparr>) ty' token = lookup s ty' token"
  by (simp add: lookup_def)

text \<open>
  C1, as stated, fails on the code: a reconnection with an unknown token, as the first request
  of its connection type, is rejected with \<open>UnrecognizedReconnectionToken\<close>, and the table that
  had no inner map for the type has one afterwards.
\<close>

theorem failed_reconnect_creates_inner_map:
  "fst (connect Management second_protocol (new_MainServer Undefined)) = Some UnrecognizedReconnectionToken
   \<and> connections (new_MainServer Undefined) Management = None
   \<and> connections (snd (snd (connect Management second_protocol (new_MainServer Undefined)))) Management \<noteq> None
   \<and> snd (snd (connect Management second_protocol (new_MainServer Undefined))) \<noteq> new_MainServer Undefined"
proof -
  have a: "connect Management second_protocol (new_MainServer Undefined) =
      (Some UnrecognizedReconnectionToken, [],
       (new_MainServer Undefined)\<lparr>connections := (Map.empty)(Management \<mapsto> Map.empty)\<rparr>)"
    by (simp add: connect_def admit_def Let_def new_MainServer_def second_protocol_def)
  have b: "connections (new_MainServer Undefined) Management = None"
    by (simp add: new_MainServer_def)
  have c: "connections (snd (snd (connect Management second_protocol (new_MainServer Undefined)))) Management \<noteq> None"
    unfolding a by simp
  from b c have "snd (snd (connect Management second_protocol (new_MainServer Undefined))) \<noteq> new_MainServer Undefined"
    by metis
  with a b c show ?thesis by simp
qed

text \<open>
  C1, amended. For the connection types Management and ExtensionHost: a reconnection whose
  token has no entry is rejected with \<open>UnrecognizedReconnectionToken\<close>; a request that is not a
  reconnection and whose token has an entry is rejected with \<open>DuplicateReconnectionToken\<close>.
  In both cases nothing is sent, every entry of the table and every connection object is as
  before; the one write is that the inner map of the type is created, empty, when the type had
  none (which can only happen in the first case). In the second case the server is unchanged.
\<close>

theorem admission_rejections:
  "((ty = Management \<or> ty = ExtensionHost) \<and> reconnection (options p)
      \<and> lookup s ty (reconnectionToken (options p)) = None \<longrightarrow>
        fst (connect ty p s) = Some UnrecognizedReconnectionToken
      \<and> fst (snd (connect ty p s)) = []
      \<and> lookup (snd (snd (connect ty p s))) = lookup s
      \<and> objects (snd (snd (connect ty p s))) = objects s
      \<and> snd (snd (connect ty p s)) =
          s\<lparr>connections := (if connections s ty = None
                              then (connections s)(ty \<mapsto> Map.empty) else connections s)\<rparr>)
   \<and> ((ty = Management \<or> ty = ExtensionHost) \<and> \<not> reconnection (options p)
      \<and> lookup s ty (reconnectionToken (options p)) = Some r \<longrightarrow>
        connect ty p s = (Some DuplicateReconnectionToken, [], s))"
proof (intro conjI impI)
  assume a: "(ty = Management \<or> ty = ExtensionHost) \<and> reconnection (options p)
      \<and> lookup s ty (reconnectionToken (options p)) = None"
  let ?s = "s\<lparr>connections := (if connections s ty = None
                              then (connections s)(ty \<mapsto> Map.empty) else connections s)\<rparr>"
  from a have c: "connect ty p s = (Some UnrecognizedReconnectionToken, [], ?s)"
    using connect_admit [of ty p s] admit_unrecognized [of p s ty] by simp
  show "fst (connect ty p s) = Some UnrecognizedReconnectionToken" unfolding c by simp
  show "fst (snd (connect ty p s)) = []" unfolding c by simp
  show "snd (snd (connect ty p s)) = ?s" unfolding c by simp
  show "objects (snd (snd (connect ty p s))) = objects s" unfolding c by simp
  have "lookup ?s = lookup s" using lookup_lazy [of s ty] by (intro ext)
  then show "lookup (snd (snd (connect ty p s))) = lookup s" unfolding c by simp
next
  assume a: "(ty = Management \<or> ty = ExtensionHost) \<and> \<not> reconnection (options p)
      \<and> lookup s ty (reconnectionToken (options p)) = Some r"
  then show "connect ty p s = (Some DuplicateReconnectionToken, [], s)"
    using connect_admit [of ty p s] admit_duplicate [of p s ty r] by simp
qed

lemma a_server_eq:
  "a_server =
     \<lparr>connections = [Management \<mapsto> [''t'' \<mapsto> 0]],
      objects = [0 \<mapsto> (Mgmt (ManagementConnection_new first_protocol) \<lparr>pending = [], fresh = 0\<rparr>,
                          Management, ''t'')],
      allocated = 1, forked = 0, logService = Undefined\<rparr>"
  by (simp add: a_server_def connect_def admit_def Let_def new_MainServer_def first_protocol_def)

theorem admission_rejections_witness:
  "reconnection (options second_protocol)
   \<and> lookup a_server ExtensionHost (reconnectionToken (options second_protocol)) = None
   \<and> fst (connect ExtensionHost second_protocol a_server) = Some UnrecognizedReconnectionToken
   \<and> lookup (snd (snd (connect ExtensionHost second_protocol a_server))) = lookup a_server
   \<and> objects (snd (snd (connect ExtensionHost second_protocol a_server))) = objects a_server
   \<and> \<not> reconnection (options first_protocol)
   \<and> lookup a_server Management (reconnectionToken (options first_protocol)) = Some 0
   \<and> connect Management first_protocol a_server = (Some DuplicateReconnectionToken, [], a_server)"
proof -
  have h1: "reconnection (options second_protocol)"
    by (simp add: second_protocol_def)
  have h2: "lookup a_server ExtensionHost (reconnectionToken (options second_protocol)) = None"
    by (simp add: a_server_eq lookup_def)
  have h3: "\<not> reconnection (options first_protocol)"
    by (simp add: first_protocol_def)
  have h4: "lookup a_server Management (reconnectionToken (options first_protocol)) = Some 0"
    by (simp add: a_server_eq lookup_def first_protocol_def)
  from h1 h2 h3 h4 show ?thesis
    using admission_rejections [of ExtensionHost second_protocol a_server 0]
      admission_rejections [of Management first_protocol a_server 0]
    by blast
qed

section \<open>Tunnel requests\<close>

lemma server_run_append: "server_run (xs @ ys) s = server_run ys (server_run xs s)"
  by (induction xs arbitrary: s) simp_all

text \<open>
  C9. A request of type Tunnel hands the protocol to \<open>tunnel()\<close> and returns: no error, no
  other effect, and the server (table, connection objects, counters) is the same value as before,
  so no connection is created and no token is registered. Hence every later admission behaves as
  if the tunnel request had not been made, and a tunnel request can be dropped from any sequence
  of requests and events without changing the server it leads to.
\<close>

theorem tunnel_bypasses_table:
  "connect Tunnel p s = (None, [ProtocolTunnel (ident p)], s)
   \<and> upgrade Tunnel p s = ([ProtocolTunnel (ident p)], s)
   \<and> lookup (snd (upgrade Tunnel p s)) = lookup s
   \<and> objects (snd (upgrade Tunnel p s)) = objects s
   \<and> connect ty p' (snd (upgrade Tunnel p s)) = connect ty p' s
   \<and> server_run (xs @ Upgrade Tunnel p # ys) s = server_run (xs @ ys) s"
  by (simp add: connect_def upgrade_def server_run_append)

section \<open>Reconnection of an existing session\<close>

text \<open>
  What \<open>connect\<close> does for a reconnection whose token has an entry: it acknowledges on the new
  protocol, reads its buffer, disposes it, and calls \<open>reconnect\<close> on the existing connection,
  which stays in the table; the first argument of that call is the protocol wrapper itself.
\<close>

lemma reconnection_admitted:
  assumes ty: "ty = Management \<or> ty = ExtensionHost"
    and re: "reconnection (options p)"
    and lk: "lookup s ty (reconnectionToken (options p)) = Some r"
    and ob: "objects s r = Some (c, l)"
  shows "connect ty p s =
     (None,
      [SendMessage (ident p) (ok_message ty getDebugPort), ReadEntireBuffer (ident p),
       ProtocolDispose (ident p)] @ fst (connection_reconnect (ProtocolObject (ident p)) (buffered p) c),
      s\<lparr>objects := (objects s)(r \<mapsto> (snd (connection_reconnect (ProtocolObject (ident p)) (buffered p) c), l))\<rparr>)"
proof -
  from lk obtain m where m: "connections s ty = Some m" "m (reconnectionToken (options p)) = Some r"
    by (auto simp: lookup_def split: option.splits)
  obtain es c' where rc: "connection_reconnect (ProtocolObject (ident p)) (buffered p) c = (es, c')"
    by (cases "connection_reconnect (ProtocolObject (ident p)) (buffered p) c")
  from m re ob rc have "admit ty p s =
     (None, [SendMessage (ident p) (ok_message ty getDebugPort), ReadEntireBuffer (ident p),
       ProtocolDispose (ident p)] @ es, s\<lparr>objects := (objects s)(r \<mapsto> (c', l))\<rparr>)"
    by (simp add: admit_def Let_def)
  with ty rc show ?thesis by (auto simp: connect_def)
qed

text \<open>
  C3. The code does not pass the raw socket. After the session of \<open>first_protocol\<close> is admitted,
  the reconnection of \<open>second_protocol\<close> (whose socket is \<open>WebSocketNodeSocket 2\<close>) makes the
  existing connection accept \<open>ProtocolObject 2\<close>: the wrapper that was disposed one statement
  before, in the place of the parameter \<open>socket: ISocket\<close> of \<open>reconnect\<close>.
\<close>

theorem reconnect_receives_protocol_wrapper:
  "fst (snd (connect Management second_protocol a_server)) =
     [SendMessage 2 OkMessage, ReadEntireBuffer 2, ProtocolDispose 2, ClearTimeout None,
      BeginAcceptReconnection 1 (ProtocolObject 2) (Some [4, 5]), EndAcceptReconnection 1]
   \<and> socket second_protocol = WebSocketNodeSocket 2"
  by (simp add: a_server_eq connect_def admit_def Let_def second_protocol_def first_protocol_def
      ManagementConnection_reconnect_def ManagementConnection_new_def ok_message_def)

section \<open>The initialization message of the extension host\<close>

text \<open>
  C8. The initial data chunk is not the bytes buffered at admission. \<open>connect\<close> calls the
  constructor of \<open>ExtensionHostConnection\<close> with two arguments where it declares three, so the
  parameter \<open>buffer\<close> is the log service and \<open>log\<close> is undefined, and \<open>readEntireBuffer\<close> is
  never called for a new session. When the process reports ready, the listener is removed and
  the socket is paused, and then \<open>buffer.buffer.toString("base64")\<close> is evaluated on the log
  service: it throws, or gives a text that belongs to the log service, whatever the bytes 1, 2, 3
  that the protocol had received.
\<close>

theorem exthost_init_message_from_log_service:
  "fst (snd (connect ExtensionHost first_protocol (new_MainServer (LogService t)))) =
     [SendMessage 1 (DebugPortMessage None), ProtocolDispose 1, Fork 0]
   \<and> fst (deliver 0 (ProcessMessage ''VSCODE_EXTHOST_IPC_READY'')
        (snd (snd (connect ExtensionHost first_protocol (new_MainServer (LogService t)))))) =
     RemoveListener 0 # SocketPause (WebSocketNodeSocket 1) #
     (case t of
        None \<Rightarrow> [TypeError]
      | Some x \<Rightarrow>
          [ProcessSend 0
             \<lparr>msg_type = ''VSCODE_EXTHOST_IPC_SOCKET'', initialDataChunk = ForeignText x,
              msg_skipWebSocketFrames = False\<rparr>
             (WebSocketNodeSocket 1)])
   \<and> buffered first_protocol = [1, 2, 3]"
  by (simp add: connect_def admit_def Let_def new_MainServer_def first_protocol_def
      ExtensionHostConnection_new_def ok_message_def getDebugPort_def deliver_def listen_def
      console_listener_def sendInitMessage_def toString_base64_def instanceof_NodeSocket_def
      split: option.splits)

text \<open>
  With a buffer in the parameter \<open>buffer\<close>, the ready message is answered as C8 says, and a
  second ready message is ignored.
\<close>

lemma ready_with_buffer:
  assumes "listening c" and "listen_buffer c = VSBuffer bs"
  shows "ExtensionHostConnection_on (ProcessMessage ''VSCODE_EXTHOST_IPC_READY'') c =
     ([RemoveListener (process c), SocketPause (socket (protocol c)),
       ProcessSend (process c)
         \<lparr>msg_type = ''VSCODE_EXTHOST_IPC_SOCKET'', initialDataChunk = Base64 bs,
          msg_skipWebSocketFrames = instanceof_NodeSocket (socket (protocol c))\<rparr>
         (socket (protocol c))],
      c\<lparr>listening := False\<rparr>)"
  using assms
  by (simp add: listen_def console_listener_def sendInitMessage_def toString_base64_def)

lemma second_ready_ignored:
  "\<not> listening c \<Longrightarrow>
   ExtensionHostConnection_on (ProcessMessage ''VSCODE_EXTHOST_IPC_READY'') c = ([], c)"
  by (simp add: listen_def console_listener_def)

section \<open>The outcomes of an admission\<close>

lemma fires_close_mem: "OnCloseFire \<in> set es \<longleftrightarrow> times fires_close es > 0"
proof -
  have "filter fires_close es \<noteq> [] \<longleftrightarrow> OnCloseFire \<in> set es"
    by (auto simp: filter_empty_conv fires_close_def)
  then show ?thesis by (simp add: times_def)
qed

lemma once_if_pos: "once_if b > 0 \<longleftrightarrow> b"
  by (simp add: once_if_def)

lemma connection_on_close:
  assumes "connection_on e c = (es, c')"
  shows "(connection_disposed c \<longrightarrow> connection_disposed c')
     \<and> (OnCloseFire \<in> set es \<longleftrightarrow> \<not> connection_disposed c \<and> connection_disposed c')"
proof (cases c)
  case (Mgmt m w)
  obtain es1 m1 w1 where d: "ManagementConnection_do (Event e) m w = (es1, m1, w1)"
    by (cases "ManagementConnection_do (Event e) m w")
  with assms Mgmt have eq: "es = es1" "c' = Mgmt m1 w1" by auto
  from mgmt_do_counts [OF d] show ?thesis
    unfolding eq Mgmt fires_close_mem by (simp add: once_if_pos) blast
next
  case (ExtHost h)
  obtain es1 h1 where d: "ExtensionHostConnection_do (Event e) h = (es1, h1)"
    by (cases "ExtensionHostConnection_do (Event e) h")
  with assms ExtHost have eq: "es = es1" "c' = ExtHost h1" by auto
  from exthost_do_facts [OF d] show ?thesis
    unfolding eq ExtHost fires_close_mem by (simp add: once_if_pos) blast
qed

lemma connection_reconnect_keeps:
  assumes "connection_reconnect sock buffer c = (es, c')"
  shows "connection_disposed c' = connection_disposed c \<and> OnCloseFire \<notin> set es"
proof (cases c)
  case (Mgmt m w)
  with assms show ?thesis by (auto simp: ManagementConnection_reconnect_def)
next
  case (ExtHost h)
  obtain es1 h1 where d: "ExtensionHostConnection_reconnect sock buffer h = (es1, h1)"
    by (cases "ExtensionHostConnection_reconnect sock buffer h")
  with assms ExtHost have eq: "es = es1" "c' = ExtHost h1" by auto
  from exthost_reconnect_quiet [OF d] show ?thesis
    unfolding eq fires_close_mem ExtHost by simp
qed

lemma lookup_insert:
  "lookup (s\<lparr>connections := (connections s)(ty \<mapsto>
        (case connections s ty of Some m \<Rightarrow> m | None \<Rightarrow> Map.empty)(token \<mapsto> r))\<rparr>) ty' token' =
     (if ty' = ty \<and> token' = token then Some r else lookup s ty' token')"
  by (simp add: lookup_def split: option.splits)

lemma lookup_delete:
  "lookup (s\<lparr>connections := table_delete ty token (connections s)\<rparr>) ty' token' =
     (if ty' = ty \<and> token' = token then None else lookup s ty' token')"
  by (simp add: lookup_def table_delete_def split: option.splits)

lemma lookup_objects_upd [simp]: "lookup (s\<lparr>objects := ob\<rparr>) = lookup s"
  by (intro ext) (simp add: lookup_def)

lemma admit_dangling:
  assumes "reconnection (options p)" and "lookup s ty (reconnectionToken (options p)) = Some r"
    and "objects s r = None"
  shows "admit ty p s =
     (Some CallOnUndefined,
      [SendMessage (ident p) (ok_message ty getDebugPort), ReadEntireBuffer (ident p),
       ProtocolDispose (ident p)], s)"
proof -
  from assms obtain m where m: "connections s ty = Some m" "m (reconnectionToken (options p)) = Some r"
    by (auto simp: lookup_def split: option.splits)
  with assms show ?thesis by (simp add: admit_def Let_def)
qed

lemma admit_reconnect:
  assumes re: "reconnection (options p)"
    and lk: "lookup s ty (reconnectionToken (options p)) = Some r"
    and ob: "objects s r = Some (c, l)"
    and rc: "connection_reconnect (ProtocolObject (ident p)) (buffered p) c = (es, c')"
  shows "admit ty p s =
     (None,
      [SendMessage (ident p) (ok_message ty getDebugPort), ReadEntireBuffer (ident p),
       ProtocolDispose (ident p)] @ es,
      s\<lparr>objects := (objects s)(r \<mapsto> (c', l))\<rparr>)"
proof -
  from lk obtain m where m: "connections s ty = Some m" "m (reconnectionToken (options p)) = Some r"
    by (auto simp: lookup_def split: option.splits)
  from m re ob rc show ?thesis by (simp add: admit_def Let_def)
qed

lemma constructed_not_disposed: "\<not> connection_disposed (snd (constructed ty p s))"
  by (simp add: constructed_def ManagementConnection_new_def ExtensionHostConnection_new_def)

lemma admit_fresh:
  assumes "\<not> reconnection (options p)" and "lookup s ty (reconnectionToken (options p)) = None"
  shows "admit ty p s =
     (None, SendMessage (ident p) (ok_message ty getDebugPort) # fst (constructed ty p s),
      s\<lparr>connections := (connections s)(ty \<mapsto>
           (case connections s ty of Some m \<Rightarrow> m | None \<Rightarrow> Map.empty)
             (reconnectionToken (options p) \<mapsto> allocated s)),
        objects := (objects s)(allocated s \<mapsto> (snd (constructed ty p s), ty, reconnectionToken (options p))),
        allocated := Suc (allocated s),
        forked := (if ty = Management then forked s else Suc (forked s))\<rparr>)"
proof (cases "connections s ty")
  case None
  with assms show ?thesis
    by (simp add: admit_def Let_def constructed_def ExtensionHostConnection_new_def)
next
  case (Some m)
  with assms have "m (reconnectionToken (options p)) = None" by (simp add: lookup_def)
  with assms Some show ?thesis
    by (simp add: admit_def Let_def constructed_def ExtensionHostConnection_new_def)
qed

lemma outcome_same_refl: "outcome_same s s"
  by (simp add: outcome_same_def)

lemma outcome_same_lazy:
  "outcome_same s (s\<lparr>connections := (if connections s ty = None
                          then (connections s)(ty \<mapsto> Map.empty) else connections s)\<rparr>)"
  unfolding outcome_same_def using lookup_lazy [of s ty] by (simp add: fun_eq_iff)

lemma admit_cases:
  assumes "admit ty p s = (err, es, s')"
  shows "(err \<noteq> None \<and> outcome_same s s')
       \<or> (err = None \<and> reconnection (options p)
            \<and> outcome_reconnect ty (reconnectionToken (options p)) s s')
       \<or> (err = None \<and> \<not> reconnection (options p)
            \<and> outcome_insert ty (reconnectionToken (options p)) s s')"
proof -
  let ?tok = "reconnectionToken (options p)"
  show ?thesis
  proof (cases "lookup s ty ?tok")
    case None
    show ?thesis
    proof (cases "reconnection (options p)")
      case True
      from admit_unrecognized [OF True None] assms
      have "err = Some UnrecognizedReconnectionToken"
        "s' = s\<lparr>connections := (if connections s ty = None
                          then (connections s)(ty \<mapsto> Map.empty) else connections s)\<rparr>"
        by simp_all
      with outcome_same_lazy [of s ty] show ?thesis by simp
    next
      case False
      let ?c = "snd (constructed ty p s)"
      let ?s2 = "s\<lparr>connections := (connections s)(ty \<mapsto>
           (case connections s ty of Some m \<Rightarrow> m | None \<Rightarrow> Map.empty)(?tok \<mapsto> allocated s)),
        objects := (objects s)(allocated s \<mapsto> (?c, ty, ?tok)),
        allocated := Suc (allocated s),
        forked := (if ty = Management then forked s else Suc (forked s))\<rparr>"
      from admit_fresh [OF False None] assms have r: "err = None" "s' = ?s2" by simp_all
      have lk: "lookup ?s2 ty' token' = (if ty' = ty \<and> token' = ?tok
                                    then Some (allocated s) else lookup s ty' token')"
        for ty' token'
        by (simp add: lookup_def split: option.splits)
      have "outcome_insert ty ?tok s ?s2"
        unfolding outcome_insert_def
      proof (intro conjI)
        show "lookup s ty ?tok = None" by (rule None)
        show "allocated ?s2 = Suc (allocated s)" by simp
        show "lookup ?s2 = (\<lambda>ty' token'. if ty' = ty \<and> token' = ?tok
                                    then Some (allocated s) else lookup s ty' token')"
          by (intro ext) (rule lk)
        have "objects ?s2 = (objects s)(allocated s \<mapsto> (?c, ty, ?tok))" by simp
        with constructed_not_disposed [of ty p s]
        show "\<exists>c. \<not> connection_disposed c
            \<and> objects ?s2 = (objects s)(allocated s \<mapsto> (c, ty, ?tok))"
          by blast
      qed
      with r False show ?thesis by simp
    qed
  next
    case (Some r)
    show ?thesis
    proof (cases "reconnection (options p)")
      case False
      from admit_duplicate [OF False Some] assms
      have "err = Some DuplicateReconnectionToken" "s' = s" by simp_all
      with outcome_same_refl [of s] show ?thesis by simp
    next
      case True
      show ?thesis
      proof (cases "objects s r")
        case None
        from admit_dangling [OF True Some None] assms
        have "err = Some CallOnUndefined" "s' = s" by simp_all
        with outcome_same_refl [of s] show ?thesis by simp
      next
        case ob: (Some cl)
        obtain c l where cl: "objects s r = Some (c, l)" using ob by (cases cl) simp
        obtain es1 c1 where rc: "connection_reconnect (ProtocolObject (ident p)) (buffered p) c = (es1, c1)"
          by (cases "connection_reconnect (ProtocolObject (ident p)) (buffered p) c")
        from admit_reconnect [OF True Some cl rc] assms
        have res: "err = None" "s' = s\<lparr>objects := (objects s)(r \<mapsto> (c1, l))\<rparr>"
          by simp_all
        have "outcome_reconnect ty ?tok s s'"
          unfolding outcome_reconnect_def res
        proof (intro conjI)
          show "lookup (s\<lparr>objects := (objects s)(r \<mapsto> (c1, l))\<rparr>) = lookup s" by simp
          show "allocated (s\<lparr>objects := (objects s)(r \<mapsto> (c1, l))\<rparr>) = allocated s" by simp
          have "objects (s\<lparr>objects := (objects s)(r \<mapsto> (c1, l))\<rparr>) = (objects s)(r \<mapsto> (c1, l))"
            by simp
          with Some cl connection_reconnect_keeps [OF rc]
          show "\<exists>r' c c' l'. lookup s ty ?tok = Some r' \<and> objects s r' = Some (c, l')
            \<and> objects (s\<lparr>objects := (objects s)(r \<mapsto> (c1, l))\<rparr>) = (objects s)(r' \<mapsto> (c', l'))
            \<and> connection_disposed c' = connection_disposed c"
            by blast
        qed
        with res True show ?thesis by simp
      qed
    qed
  qed
qed

section \<open>The invariant of the connection table\<close>

lemma deliver_cases:
  assumes "deliver r e s = (es, s')"
  shows "(objects s r = None \<and> s' = s \<and> es = [])
     \<or> (\<exists>c c' ty token. objects s r = Some (c, ty, token)
          \<and> objects s' = (objects s)(r \<mapsto> (c', ty, token))
          \<and> allocated s' = allocated s
          \<and> (connection_disposed c \<longrightarrow> connection_disposed c')
          \<and> (OnCloseFire \<in> set es \<longleftrightarrow> \<not> connection_disposed c \<and> connection_disposed c')
          \<and> lookup s' = (if OnCloseFire \<in> set es
                          then (\<lambda>ty' token'. if ty' = ty \<and> token' = token
                                               then None else lookup s ty' token')
                          else lookup s))"
proof (cases "objects s r")
  case None
  with assms show ?thesis by (simp add: deliver_def)
next
  case (Some x)
  obtain c ty token where x: "objects s r = Some (c, ty, token)"
    using Some by (cases x) auto
  obtain es1 c1 where on: "connection_on e c = (es1, c1)" by (cases "connection_on e c")
  let ?t = "if OnCloseFire \<in> set es1 then table_delete ty token (connections s) else connections s"
  from assms x on have es: "es = es1"
    and s': "s' = s\<lparr>connections := ?t, objects := (objects s)(r \<mapsto> (c1, ty, token))\<rparr>"
    by (auto simp: deliver_def)
  have lk: "lookup s' = (if OnCloseFire \<in> set es
                          then (\<lambda>ty' token'. if ty' = ty \<and> token' = token
                                               then None else lookup s ty' token')
                          else lookup s)"
  proof (cases "OnCloseFire \<in> set es1")
    case True
    have "lookup s' ty' token' = (if ty' = ty \<and> token' = token then None else lookup s ty' token')"
      for ty' token'
      unfolding s' using True lookup_delete [where s = s and ty = ty and token = token and ty' = ty' and token' = token']
      by (simp add: lookup_def)
    then show ?thesis using True es by (simp add: fun_eq_iff)
  next
    case False
    have "lookup s' ty' token' = lookup s ty' token'" for ty' token'
      unfolding s' using False by (simp add: lookup_def)
    then show ?thesis using False es by (simp add: fun_eq_iff)
  qed
  have ob: "objects s' = (objects s)(r \<mapsto> (c1, ty, token))" "allocated s' = allocated s"
    unfolding s' by simp_all
  from connection_on_close [OF on] x ob lk es show ?thesis by blast
qed

lemma live_objects_eq: "objects s' = objects s \<Longrightarrow> live s' = live s"
  by (simp add: live_def fun_eq_iff)

lemma inv_same:
  assumes "table_inv s" and "outcome_same s s'"
  shows "table_inv s'"
proof -
  from assms(2) have e: "lookup s' = lookup s" "objects s' = objects s" "allocated s' = allocated s"
    by (simp_all add: outcome_same_def)
  from assms(1) show ?thesis
    unfolding table_inv_def e live_objects_eq [OF e(2)] .
qed

lemma inv_reconnect:
  assumes "table_inv s" and "outcome_reconnect ty token s s'"
  shows "table_inv s'"
proof -
  from assms(2) obtain r c c' l where
    e: "lookup s' = lookup s" "allocated s' = allocated s"
    and ob: "objects s r = Some (c, l)" "objects s' = (objects s)(r \<mapsto> (c', l))"
    and d: "connection_disposed c' = connection_disposed c"
    by (auto simp: outcome_reconnect_def)
  have lv: "live s' = live s"
  proof (intro ext)
    fix r0 ty0 tok0
    show "live s' r0 ty0 tok0 = live s r0 ty0 tok0"
      using ob d by (cases l) (simp add: live_def)
  qed
  have dom: "objects s' r0 \<noteq> None \<longleftrightarrow> objects s r0 \<noteq> None" for r0
    using ob by simp
  from assms(1) show ?thesis
    unfolding table_inv_def e lv dom .
qed

lemma inv_insert:
  assumes inv: "table_inv s" and ins: "outcome_insert ty token s s'"
  shows "table_inv s'"
proof -
  from ins obtain c where
    none: "lookup s ty token = None" and al: "allocated s' = Suc (allocated s)"
    and lk: "lookup s' = (\<lambda>ty' token'. if ty' = ty \<and> token' = token
                                    then Some (allocated s) else lookup s ty' token')"
    and nd: "\<not> connection_disposed c"
    and ob: "objects s' = (objects s)(allocated s \<mapsto> (c, ty, token))"
    by (auto simp: outcome_insert_def)
  from inv have i1: "\<And>ty token r. (lookup s ty token = Some r) = live s r ty token"
    and i2: "\<And>r. objects s r \<noteq> None \<Longrightarrow> r < allocated s"
    by (auto simp: table_inv_def)
  have fresh: "objects s (allocated s) = None"
  proof (rule ccontr)
    assume "objects s (allocated s) \<noteq> None"
    from i2 [OF this] show False by simp
  qed
  have lv: "live s' r ty' token' =
      (if r = allocated s then ty' = ty \<and> token' = token else live s r ty' token')"
    for r ty' token'
    unfolding live_def ob using nd by auto
  have nolive: "\<not> live s (allocated s) ty' token'" for ty' token'
    using fresh by (simp add: live_def)
  have "(lookup s' ty' token' = Some r) = live s' r ty' token'" for ty' token' r
  proof (cases "ty' = ty \<and> token' = token")
    case True
    then have "lookup s' ty' token' = Some (allocated s)" unfolding lk by simp
    moreover have "\<not> live s r ty token" if "r \<noteq> allocated s"
      using i1 [of ty token r] none by simp
    ultimately show ?thesis using True lv [of r ty' token'] by auto
  next
    case False
    then have "lookup s' ty' token' = lookup s ty' token'" unfolding lk by auto
    then show ?thesis
      using False lv [of r ty' token'] i1 [of ty' token' r] nolive [of ty' token'] by auto
  qed
  moreover have "r < allocated s'" if "objects s' r \<noteq> None" for r
    using that i2 [of r] unfolding ob al by (cases "r = allocated s") auto
  ultimately show ?thesis by (simp add: table_inv_def)
qed

lemma inv_deliver:
  assumes inv: "table_inv s" and d: "deliver r e s = (es, s')"
  shows "table_inv s'"
  using deliver_cases [OF d]
proof (elim disjE conjE exE)
  assume "s' = s"
  with inv show ?thesis by simp
next
  fix c c' ty token
  assume ob: "objects s r = Some (c, ty, token)"
    and ob': "objects s' = (objects s)(r \<mapsto> (c', ty, token))"
    and al: "allocated s' = allocated s"
    and mono: "connection_disposed c \<longrightarrow> connection_disposed c'"
    and cl: "OnCloseFire \<in> set es \<longleftrightarrow> \<not> connection_disposed c \<and> connection_disposed c'"
    and lk: "lookup s' = (if OnCloseFire \<in> set es
                          then (\<lambda>ty' token'. if ty' = ty \<and> token' = token
                                               then None else lookup s ty' token')
                          else lookup s)"
  from inv have i1: "\<And>ty token r. (lookup s ty token = Some r) = live s r ty token"
    and i2: "\<And>r. objects s r \<noteq> None \<Longrightarrow> r < allocated s"
    by (auto simp: table_inv_def)
  have lv: "live s' r0 ty' token' =
      (if r0 = r then \<not> connection_disposed c' \<and> ty' = ty \<and> token' = token
       else live s r0 ty' token')" for r0 ty' token'
    unfolding live_def ob' by auto
  have lvr: "live s r ty' token' = (\<not> connection_disposed c \<and> ty' = ty \<and> token' = token)"
    for ty' token'
    unfolding live_def ob by auto
  have "(lookup s' ty' token' = Some r0) = live s' r0 ty' token'" for ty' token' r0
  proof (cases "OnCloseFire \<in> set es")
    case True
    with cl have dc: "\<not> connection_disposed c" "connection_disposed c'" by simp_all
    from dc lvr have here: "lookup s ty token = Some r" using i1 [of ty token r] by simp
    show ?thesis
    proof (cases "ty' = ty \<and> token' = token")
      case k: True
      then have "lookup s' ty' token' = None" unfolding lk using True by simp
      moreover have "\<not> live s' r0 ty' token'"
      proof (cases "r0 = r")
        case True
        with dc lv [of r0 ty' token'] show ?thesis by simp
      next
        case False
        with here i1 [of ty token r0] k lv [of r0 ty' token'] show ?thesis by auto
      qed
      ultimately show ?thesis by simp
    next
      case k: False
      then have "lookup s' ty' token' = lookup s ty' token'" unfolding lk using True by auto
      moreover have "live s' r0 ty' token' = live s r0 ty' token'"
        using k lv [of r0 ty' token'] lvr [of ty' token'] by auto
      ultimately show ?thesis using i1 [of ty' token' r0] by simp
    qed
  next
    case False
    with cl mono have dc: "connection_disposed c' = connection_disposed c" by auto
    from False have "lookup s' ty' token' = lookup s ty' token'" unfolding lk by simp
    moreover have "live s' r0 ty' token' = live s r0 ty' token'"
      using dc lv [of r0 ty' token'] lvr [of ty' token'] by auto
    ultimately show ?thesis using i1 [of ty' token' r0] by simp
  qed
  moreover have "r0 < allocated s'" if "objects s' r0 \<noteq> None" for r0
    using that i2 [of r0] ob unfolding ob' al by (cases "r0 = r") auto
  ultimately show ?thesis by (simp add: table_inv_def)
qed

lemma connect_cases:
  assumes "connect ty p s = (err, es, s')"
  shows "((err \<noteq> None \<or> ty = Tunnel) \<and> outcome_same s s')
       \<or> (err = None \<and> (ty = Management \<or> ty = ExtensionHost) \<and> reconnection (options p)
            \<and> outcome_reconnect ty (reconnectionToken (options p)) s s')
       \<or> (err = None \<and> (ty = Management \<or> ty = ExtensionHost) \<and> \<not> reconnection (options p)
            \<and> outcome_insert ty (reconnectionToken (options p)) s s')"
proof (cases ty)
  case Management
  with assms have "admit ty p s = (err, es, s')" by (simp add: connect_def)
  from admit_cases [OF this] Management show ?thesis by blast
next
  case ExtensionHost
  with assms have "admit ty p s = (err, es, s')" by (simp add: connect_def)
  from admit_cases [OF this] ExtensionHost show ?thesis by blast
next
  case Tunnel
  with assms have "s' = s" by (simp add: connect_def)
  with Tunnel outcome_same_refl [of s] show ?thesis by simp
next
  case (OtherType n)
  with assms have "s' = s" "err \<noteq> None" by (auto simp: connect_def)
  with outcome_same_refl [of s] show ?thesis by simp
qed

lemma inv_connect:
  assumes "table_inv s" and "connect ty p s = (err, es, s')"
  shows "table_inv s'"
  using connect_cases [OF assms(2)] inv_same [OF assms(1)] inv_reconnect [OF assms(1)]
    inv_insert [OF assms(1)] by blast

lemma upgrade_state: "snd (upgrade ty p s) = snd (snd (connect ty p s))"
  by (simp add: upgrade_def split: prod.splits option.splits)

lemma inv_step:
  assumes "table_inv s"
  shows "table_inv (snd (server_step x s))"
proof (cases x)
  case (Upgrade ty p)
  obtain err es s' where c: "connect ty p s = (err, es, s')" by (cases "connect ty p s")
  from inv_connect [OF assms c] show ?thesis
    unfolding Upgrade by (simp add: upgrade_state c)
next
  case (Deliver r e)
  obtain es s' where d: "deliver r e s = (es, s')" by (cases "deliver r e s")
  from inv_deliver [OF assms d] show ?thesis unfolding Deliver by (simp add: d)
qed

lemma inv_run: "table_inv s \<Longrightarrow> table_inv (server_run xs s)"
  by (induction xs arbitrary: s) (simp_all add: inv_step)

lemma inv_new: "table_inv (new_MainServer lg)"
  by (simp add: table_inv_def new_MainServer_def lookup_def live_def)

lemma live_unique:
  assumes "table_inv s" and "live s r ty token" and "live s r' ty token"
  shows "r = r'"
proof -
  from assms(1) have i: "\<And>ty token r. (lookup s ty token = Some r) = live s r ty token"
    by (simp add: table_inv_def)
  from i [of ty token r] i [of ty token r'] assms(2,3) show ?thesis by simp
qed

lemma entry_is_live:
  assumes "table_inv s"
  shows "(lookup s ty token = Some r) = live s r ty token"
  using assms by (simp add: table_inv_def)

lemma upgrade_inserts_iff:
  "(lookup s ty token = None \<and> lookup (snd (upgrade ty' p s)) ty token \<noteq> None)
     = (ty' = ty \<and> (ty = Management \<or> ty = ExtensionHost) \<and> \<not> reconnection (options p)
        \<and> reconnectionToken (options p) = token \<and> fst (connect ty' p s) = None)"
proof -
  obtain err es s' where c: "connect ty' p s = (err, es, s')" by (cases "connect ty' p s")
  have u: "snd (upgrade ty' p s) = s'" by (simp add: upgrade_state c)
  have f: "fst (connect ty' p s) = err" by (simp add: c)
  from connect_cases [OF c] consider
      (same) "err \<noteq> None \<or> ty' = Tunnel" "outcome_same s s'"
    | (re) "reconnection (options p)" "outcome_reconnect ty' (reconnectionToken (options p)) s s'"
    | (ins) "err = None" "ty' = Management \<or> ty' = ExtensionHost" "\<not> reconnection (options p)"
        "outcome_insert ty' (reconnectionToken (options p)) s s'"
    by blast
  then show ?thesis
  proof cases
    case same
    note a = same(1) and b = same(2)
    from b have "lookup s' ty token = lookup s ty token" by (simp add: outcome_same_def)
    moreover from a have "\<not> (ty' = ty \<and> (ty = Management \<or> ty = ExtensionHost) \<and> err = None)"
      by auto
    ultimately show ?thesis unfolding u f by auto
  next
    case re
    note a = re(1) and b = re(2)
    from b have "lookup s' ty token = lookup s ty token" by (simp add: outcome_reconnect_def)
    with a show ?thesis unfolding u f by auto
  next
    case ins
    note a = ins(1,2,3) and b = ins(4)
    from b have none: "lookup s ty' (reconnectionToken (options p)) = None"
      and lk: "lookup s' ty token = (if ty = ty' \<and> token = reconnectionToken (options p)
                                    then Some (allocated s) else lookup s ty token)"
      by (simp_all add: outcome_insert_def)
    show ?thesis
    proof (cases "ty = ty' \<and> token = reconnectionToken (options p)")
      case True
      with none lk a show ?thesis unfolding u f by auto
    next
      case False
      with lk have "lookup s' ty token = lookup s ty token" by simp
      with False show ?thesis unfolding u f by auto
    qed
  qed
qed

lemma upgrade_keeps_entries:
  assumes "lookup s ty token = Some r"
  shows "lookup (snd (upgrade ty' p s)) ty token = Some r"
proof -
  obtain err es s' where c: "connect ty' p s = (err, es, s')" by (cases "connect ty' p s")
  have u: "snd (upgrade ty' p s) = s'" by (simp add: upgrade_state c)
  from connect_cases [OF c] consider
      (same) "outcome_same s s'"
    | (re) "outcome_reconnect ty' (reconnectionToken (options p)) s s'"
    | (ins) "outcome_insert ty' (reconnectionToken (options p)) s s'"
    by blast
  then show ?thesis
  proof cases
    case same
    with assms show ?thesis unfolding u by (simp add: outcome_same_def)
  next
    case re
    with assms show ?thesis unfolding u by (simp add: outcome_reconnect_def)
  next
    case b: ins
    from b have none: "lookup s ty' (reconnectionToken (options p)) = None"
      and lk: "lookup s' ty token = (if ty = ty' \<and> token = reconnectionToken (options p)
                                    then Some (allocated s) else lookup s ty token)"
      by (simp_all add: outcome_insert_def)
    from none assms have "\<not> (ty = ty' \<and> token = reconnectionToken (options p))" by auto
    with lk assms show ?thesis unfolding u by simp
  qed
qed

lemma deliver_lookup:
  assumes inv: "table_inv s"
  shows "lookup (snd (deliver r' e s)) ty token =
     (if lookup s ty token = Some r' \<and> OnCloseFire \<in> set (fst (deliver r' e s))
      then None else lookup s ty token)"
proof -
  obtain es s' where d: "deliver r' e s = (es, s')" by (cases "deliver r' e s")
  from inv have i1: "\<And>ty token r. (lookup s ty token = Some r) = live s r ty token"
    by (simp add: table_inv_def)
  from deliver_cases [OF d] show ?thesis
  proof (elim disjE conjE exE)
    assume "s' = s" "es = []"
    then show ?thesis unfolding d by simp
  next
    fix c c' ty0 tok0
    assume ob: "objects s r' = Some (c, ty0, tok0)"
      and cl: "OnCloseFire \<in> set es \<longleftrightarrow> \<not> connection_disposed c \<and> connection_disposed c'"
      and lk: "lookup s' = (if OnCloseFire \<in> set es
                          then (\<lambda>ty' token'. if ty' = ty0 \<and> token' = tok0
                                               then None else lookup s ty' token')
                          else lookup s)"
    have lvr: "live s r' ty' token' = (\<not> connection_disposed c \<and> ty' = ty0 \<and> token' = tok0)"
      for ty' token'
      unfolding live_def ob by auto
    show ?thesis
    proof (cases "OnCloseFire \<in> set es")
      case False
      with lk show ?thesis unfolding d by simp
    next
      case True
      with cl have nd: "\<not> connection_disposed c" by simp
      have here: "(lookup s ty token = Some r') = (ty = ty0 \<and> token = tok0)"
        using i1 [of ty token r'] lvr [of ty token] nd by simp
      from True lk have "lookup s' ty token = (if ty = ty0 \<and> token = tok0 then None else lookup s ty token)"
        by simp
      with here True show ?thesis unfolding d by simp
    qed
  qed
qed

text \<open>
  C2. In every server reached from a new one by upgrade requests and events: two live
  connections of one session are the same object, and the entry of a session is exactly its live
  connection (a token is unique within a connection type). An upgrade request adds the entry
  of a session exactly when it is of type Management or ExtensionHost, is not a reconnection,
  carries that token and \<open>connect\<close> returns without error; it never removes or replaces an
  entry, and the connection under an entry has a close listener for the session of that entry.
  An event never adds an entry, and it removes the entry of a session exactly when it is
  delivered to the connection of that entry and that connection fires its close event.
\<close>

theorem connection_table_invariants:
  assumes "s = server_run xs (new_MainServer lg)"
  shows "(live s r ty token \<and> live s r' ty token \<longrightarrow> r = r')
     \<and> ((lookup s ty token = Some r) = live s r ty token)
     \<and> ((lookup s ty token = None \<and> lookup (snd (upgrade ty' p s)) ty token \<noteq> None)
          = (ty' = ty \<and> (ty = Management \<or> ty = ExtensionHost) \<and> \<not> reconnection (options p)
             \<and> reconnectionToken (options p) = token \<and> fst (connect ty' p s) = None))
     \<and> (lookup s ty token = Some r \<longrightarrow> lookup (snd (upgrade ty' p s)) ty token = Some r)
     \<and> (lookup (snd (upgrade ty' p s)) ty token = Some r \<longrightarrow>
          live (snd (upgrade ty' p s)) r ty token)
     \<and> (lookup s ty token = None \<longrightarrow> lookup (snd (deliver r' e s)) ty token = None)
     \<and> (lookup s ty token = Some r \<longrightarrow>
          lookup (snd (deliver r' e s)) ty token =
            (if r' = r \<and> OnCloseFire \<in> set (fst (deliver r' e s)) then None else Some r))"
proof -
  have inv: "table_inv s" unfolding assms by (rule inv_run [OF inv_new])
  have inv': "table_inv (snd (upgrade ty' p s))"
    using inv_step [OF inv, of "Upgrade ty' p"] by simp
  have 1: "live s r ty token \<and> live s r' ty token \<longrightarrow> r = r'"
    using live_unique [OF inv] by blast
  have 2: "(lookup s ty token = Some r) = live s r ty token"
    by (rule entry_is_live [OF inv])
  have 4: "lookup s ty token = Some r \<longrightarrow> lookup (snd (upgrade ty' p s)) ty token = Some r"
    using upgrade_keeps_entries by blast
  have 5: "lookup (snd (upgrade ty' p s)) ty token = Some r \<longrightarrow>
          live (snd (upgrade ty' p s)) r ty token"
    using entry_is_live [OF inv'] by blast
  have 6: "lookup s ty token = None \<longrightarrow> lookup (snd (deliver r' e s)) ty token = None"
    using deliver_lookup [OF inv, of r' e ty token] by simp
  have 7: "lookup s ty token = Some r \<longrightarrow>
          lookup (snd (deliver r' e s)) ty token =
            (if r' = r \<and> OnCloseFire \<in> set (fst (deliver r' e s)) then None else Some r)"
    using deliver_lookup [OF inv, of r' e ty token] by auto
  from 1 2 upgrade_inserts_iff [of s ty token ty' p] 4 5 6 7 show ?thesis by blast
qed

theorem connection_table_invariants_witness:
  "a_server = server_run [Upgrade Management first_protocol] (new_MainServer Undefined)
   \<and> live a_server 0 Management ''t''
   \<and> lookup a_server Management ''t'' = Some 0
   \<and> lookup a_server ExtensionHost ''t'' = None
   \<and> lookup (snd (upgrade ExtensionHost first_protocol a_server)) ExtensionHost ''t'' \<noteq> None
   \<and> fst (connect ExtensionHost first_protocol a_server) = None
   \<and> lookup (snd (upgrade ExtensionHost first_protocol a_server)) Management ''t'' = Some 0
   \<and> live (snd (upgrade ExtensionHost first_protocol a_server)) 0 Management ''t''
   \<and> lookup (snd (deliver 0 SocketClose a_server)) ExtensionHost ''t'' = None
   \<and> OnCloseFire \<in> set (fst (deliver 0 ProtocolClose a_server))
   \<and> lookup (snd (deliver 0 ProtocolClose a_server)) Management ''t'' = None
   \<and> OnCloseFire \<notin> set (fst (deliver 0 SocketClose a_server))
   \<and> lookup (snd (deliver 0 SocketClose a_server)) Management ''t'' = Some 0"
proof -
  have h0: "a_server = server_run [Upgrade Management first_protocol] (new_MainServer Undefined)"
    by (simp add: a_server_def upgrade_state)
  have h1: "lookup a_server Management ''t'' = Some 0"
    by (simp add: a_server_eq lookup_def)
  have h2: "lookup a_server ExtensionHost ''t'' = None"
    by (simp add: a_server_eq lookup_def)
  have h3: "\<not> reconnection (options first_protocol)"
      "reconnectionToken (options first_protocol) = ''t''"
    by (simp_all add: first_protocol_def)
  have h4: "fst (connect ExtensionHost first_protocol a_server) = None"
    using admit_fresh [of first_protocol a_server ExtensionHost] h2 h3
    by (simp add: connect_def)
  have h5: "OnCloseFire \<in> set (fst (deliver 0 ProtocolClose a_server))"
    by (simp add: a_server_eq deliver_def ManagementConnection_dispose_def
        ManagementConnection_new_def)
  have h6: "OnCloseFire \<notin> set (fst (deliver 0 SocketClose a_server))"
    by (simp add: a_server_eq deliver_def ManagementConnection_onSocketClose_def setTimeout_def)
  note t1 = connection_table_invariants [OF h0, where r = 0 and ty = Management
      and token = "''t''" and r' = 0 and ty' = ExtensionHost and p = first_protocol
      and e = ProtocolClose]
  note t2 = connection_table_invariants [OF h0, where r = 0 and ty = Management
      and token = "''t''" and r' = 0 and ty' = ExtensionHost and p = first_protocol
      and e = SocketClose]
  note t3 = connection_table_invariants [OF h0, where r = 0 and ty = ExtensionHost
      and token = "''t''" and r' = 0 and ty' = ExtensionHost and p = first_protocol
      and e = SocketClose]
  from h0 h1 h2 h3 h4 h5 h6 t1 t2 t3 show ?thesis by simp
qed

end
